theory Spec2Isabelle
  imports Complex_Main "HOL-Library.Word"
begin

unbundle bit_operations_syntax

section \<open>The JIT engine of \<open>torch/csrc/jit/tensorexpr/llvm_jit.cpp\<close>\<close>

subsection \<open>Failures and the assertion helpers\<close>

text \<open>
  An \<open>llvm::Error\<close> in its failure state is represented by its rendered message
  (what \<open>ss << err\<close> prints). \<open>llvm::Error\<close> is then \<open>llvm_Error option\<close>
  (\<open>None\<close> is \<open>Error::success()\<close>) and \<open>llvm::Expected<T>\<close> is
  \<open>llvm_Error + T\<close>.

  A failed \<open>TORCH_INTERNAL_ASSERT\<close> or \<open>TORCH_CHECK\<close> ends the call; it is the
  \<open>Inl\<close> branch of every result, carrying the message the source builds.
  \<open>LibraryAssert\<close> is a failed \<open>assert\<close> inside LLVM. \<open>OutOfBounds\<close> stands
  for a read or write beyond the end of an array or vector, or through a dangling
  handle, which C++ leaves undefined.
\<close>

type_synonym llvm_Error = string

datatype failure =
    InternalAssert string
  | Check string
  | LibraryAssert string
  | OutOfBounds

type_synonym JITTargetAddress = "64 word"

definition defaultErrorMsg :: string where
  "defaultErrorMsg = ''Unexpected failure in LLVM JIT''"

definition formatError :: "llvm_Error \<Rightarrow> string option \<Rightarrow> string" where
  "formatError err msg =
     (case msg of None \<Rightarrow> defaultErrorMsg | Some m \<Rightarrow> m) @ '': '' @ err"

text \<open>\<open>assertSuccess(llvm::Expected<T>, msg)\<close>\<close>

definition assertSuccess :: "llvm_Error + 'a \<Rightarrow> string option \<Rightarrow> failure + 'a" where
  "assertSuccess valOrErr msg =
     (case valOrErr of
        Inl err \<Rightarrow> Inl (InternalAssert (formatError err msg))
      | Inr v \<Rightarrow> Inr v)"

text \<open>\<open>assertSuccess(llvm::Error, msg)\<close>\<close>

definition assertSuccessE :: "llvm_Error option \<Rightarrow> string option \<Rightarrow> failure + unit" where
  "assertSuccessE err msg =
     (case err of
        Some e \<Rightarrow> Inl (InternalAssert (formatError e msg))
      | None \<Rightarrow> Inr ())"

subsection \<open>The host and the target machine builder\<close>

text \<open>
  What the LLVM host-introspection calls return is an input of the model:
  \<open>llvm::sys::getProcessTriple\<close>, \<open>getHostCPUName\<close>, \<open>getHostCPUFeatures\<close>
  (the \<open>StringMap\<close> in its iteration order), the target registered for the triple
  (represented by the global prefix character of its data layout, or the error of the
  lookup), and the symbols of the running process with their addresses, or the error
  of opening the process as a library.
\<close>

record DataLayout =
  GlobalPrefix :: "char option"

record Host =
  getProcessTriple :: string
  getHostCPUName :: string
  getHostCPUFeatures :: "(string \<times> bool) list"
  lookupTarget :: "llvm_Error + DataLayout"
  currentProcess :: "llvm_Error + (string \<times> JITTargetAddress) list"

datatype CodeGenOpt = OptNone | OptLess | OptDefault | OptAggressive

datatype FPOpFusion = Fast | Standard | Strict

record JITTargetMachineBuilder =
  TT :: string
  CPU :: string
  Features :: "string list"
  OptLevel :: CodeGenOpt
  AllowFPOpFusion :: FPOpFusion

text \<open>\<open>JITTargetMachineBuilder(Triple)\<close>: LLVM's defaults for everything else.\<close>

definition JITTargetMachineBuilder_init :: "string \<Rightarrow> JITTargetMachineBuilder" where
  "JITTargetMachineBuilder_init triple =
     \<lparr>TT = triple, CPU = [], Features = [], OptLevel = OptNone,
      AllowFPOpFusion = Standard\<rparr>"

definition toLower :: "char \<Rightarrow> char" where
  "toLower c =
     (let n = (of_char c :: nat)
      in if 65 \<le> n \<and> n \<le> 90 then char_of (n + 32) else c)"

definition hasFlag :: "string \<Rightarrow> bool" where
  "hasFlag s = (case s of [] \<Rightarrow> False | c # _ \<Rightarrow> c = CHR ''+'' \<or> c = CHR ''-'')"

text \<open>
  \<open>SubtargetFeatures::AddFeature(String, Enable)\<close>: an empty name is dropped; the
  name is lowercased and gets the sign of \<open>Enable\<close> unless it carries one already.
\<close>

definition AddFeature :: "string list \<Rightarrow> string \<Rightarrow> bool \<Rightarrow> string list" where
  "AddFeature fs s enable =
     (if s = [] then fs
      else fs @ [if hasFlag s then map toLower s
                 else (if enable then CHR ''+'' else CHR ''-'') # map toLower s])"

text \<open>\<open>JITTargetMachineBuilder::addFeatures\<close> adds each string with \<open>Enable = true\<close>.\<close>

definition addFeatures :: "JITTargetMachineBuilder \<Rightarrow> string list \<Rightarrow> JITTargetMachineBuilder" where
  "addFeatures JTMB fv = JTMB\<lparr>Features := fold (\<lambda>f fs. AddFeature fs f True) fv (Features JTMB)\<rparr>"

definition makeTargetMachineBuilder :: "Host \<Rightarrow> JITTargetMachineBuilder" where
  "makeTargetMachineBuilder host =
     (let JTMB = JITTargetMachineBuilder_init (getProcessTriple host);
          SubtargetFeatures =
            fold (\<lambda>Feature fs. AddFeature fs (fst Feature) (snd Feature))
              (getHostCPUFeatures host) [];
          JTMB = JTMB\<lparr>OptLevel := OptDefault\<rparr>;
          JTMB = JTMB\<lparr>CPU := getHostCPUName host\<rparr>;
          JTMB = addFeatures JTMB SubtargetFeatures;
          JTMB = JTMB\<lparr>AllowFPOpFusion := Fast\<rparr>
      in JTMB)"

text \<open>
  \<open>JITTargetMachineBuilder::createTargetMachine\<close>: fails when no target is
  registered for the triple; the machine keeps what the builder holds.
\<close>

record TargetMachine =
  TargetTriple :: string
  TargetCPU :: string
  TargetFS :: "string list"
  TargetOptLevel :: CodeGenOpt
  TargetFPOpFusion :: FPOpFusion
  TargetDataLayout :: DataLayout

definition createTargetMachine :: "Host \<Rightarrow> JITTargetMachineBuilder \<Rightarrow> llvm_Error + TargetMachine" where
  "createTargetMachine host JTMB =
     (case lookupTarget host of
        Inl err \<Rightarrow> Inl err
      | Inr dl \<Rightarrow>
          Inr \<lparr>TargetTriple = TT JTMB, TargetCPU = CPU JTMB, TargetFS = Features JTMB,
               TargetOptLevel = OptLevel JTMB, TargetFPOpFusion = AllowFPOpFusion JTMB,
               TargetDataLayout = dl\<rparr>)"

definition createDataLayout :: "TargetMachine \<Rightarrow> DataLayout" where
  "createDataLayout tm = TargetDataLayout tm"

subsection \<open>Symbol names, the main dylib and the intrinsic table\<close>

text \<open>
  \<open>Mangler::getNameWithPrefix\<close> and \<open>MangleAndInterner\<close> put the global prefix of
  the data layout, when it has one, in front of the name. (LLVM's escape for a name
  that begins with the byte 1 is left out; the names here are C identifiers.)
\<close>

definition mangle :: "DataLayout \<Rightarrow> string \<Rightarrow> string" where
  "mangle dl nm = (case GlobalPrefix dl of None \<Rightarrow> nm | Some p \<Rightarrow> p # nm)"

text \<open>
  A \<open>JITDylib\<close> is the table of its definitions, linker name to address, in the
  order they were made. \<open>JD.define(absoluteSymbols(...))\<close> refuses a name that the
  dylib defines already and otherwise adds the definitions.
\<close>

type_synonym SymbolMap = "(string \<times> JITTargetAddress) list"

type_synonym JITDylib = SymbolMap

definition JD_define :: "JITDylib \<Rightarrow> SymbolMap \<Rightarrow> llvm_Error + JITDylib" where
  "JD_define JD syms =
     (case filter (\<lambda>kv. map_of JD (fst kv) \<noteq> None) syms of
        [] \<Rightarrow> Inr (JD @ syms)
      | kv # _ \<Rightarrow> Inl (''Duplicate definition of symbol '' @ fst kv))"


text \<open>
  The intrinsic table \<open>getSymbols()\<close> and the function \<open>DispatchParallel\<close> are
  defined outside this file; they are inputs here. The table is an array of
  \<open>SymbolAddressIf\<close> ended by an entry whose \<open>symbol\<close> is the null pointer
  (\<open>None\<close>). A function pointer is its address, so \<open>toAddress\<close> is the identity.
\<close>

record SymbolAddressIf =
  symbol :: "string option"
  address :: JITTargetAddress

record Runtime =
  getSymbols :: "SymbolAddressIf list"
  DispatchParallel :: JITTargetAddress

definition toAddress :: "JITTargetAddress \<Rightarrow> JITTargetAddress" where
  "toAddress Ptr = Ptr"

definition entry :: "DataLayout \<Rightarrow> string \<Rightarrow> JITTargetAddress \<Rightarrow> string \<times> JITTargetAddress" where
  "entry dl nm ptr = (mangle dl nm, toAddress ptr)"

text \<open>
  The \<open>while (syms->symbol)\<close> loop of \<open>registerIntrinsics\<close>. Running off the end of
  a table that has no closing entry reads beyond the array.
\<close>

fun registerIntrinsics_loop ::
  "DataLayout \<Rightarrow> SymbolAddressIf list \<Rightarrow> JITDylib \<times> string set \<Rightarrow>
   failure + (JITDylib \<times> string set)" where
  "registerIntrinsics_loop dl [] (JD, intrinsics) = Inl OutOfBounds"
| "registerIntrinsics_loop dl (syms # rest) (JD, intrinsics) =
     (case symbol syms of
        None \<Rightarrow> Inr (JD, intrinsics)
      | Some nm \<Rightarrow>
          (case assertSuccess (JD_define JD [entry dl nm (address syms)]) None of
             Inl f \<Rightarrow> Inl f
           | Inr JD' \<Rightarrow> registerIntrinsics_loop dl rest (JD', insert nm intrinsics)))"

definition registerIntrinsics ::
  "Runtime \<Rightarrow> DataLayout \<Rightarrow> JITDylib \<times> string set \<Rightarrow> failure + (JITDylib \<times> string set)" where
  "registerIntrinsics rt dl st =
     (case registerIntrinsics_loop dl (getSymbols rt) st of
        Inl f \<Rightarrow> Inl f
      | Inr (JD, intrinsics) \<Rightarrow>
          (case assertSuccess
                  (JD_define JD [entry dl ''DispatchParallel'' (DispatchParallel rt)]) None of
             Inl f \<Rightarrow> Inl f
           | Inr JD' \<Rightarrow> Inr (JD', intrinsics)))"

subsection \<open>Modules and symbols\<close>

text \<open>
  An IR module is opaque to this file. The model keeps of a module what the toolchain
  makes of it: the symbols the module defines, each with the address its code gets
  and whether it is exported; the error of compiling the module, if it does not
  compile; and the error of linking its object, if it does not link. When these
  errors come up differs between the two implementations and is part of each.
  A module is taken to carry the data layout of the engine it is added to.

  A \<open>JITSymbol\<close> is null, an error, a symbol with an address, or a symbol of an
  object that is not linked yet and will not link: it is a symbol, and asking for its
  address gives the link error.
\<close>

record Module =
  compileError :: "llvm_Error option"
  linkError :: "llvm_Error option"
  definitions :: "(string \<times> JITTargetAddress \<times> bool) list"

datatype JITSymbol =
    NullSymbol
  | ErrorSymbol llvm_Error
  | Symbol JITTargetAddress
  | UnlinkedSymbol JITTargetAddress llvm_Error

subsection \<open>The implementation for LLVM 9 and later\<close>

text \<open>
  \<open>DynamicLibrarySearchGenerator\<close>: asked for a linker name the dylib does not
  define, it strips the global prefix (a name without it is not searched), asks the
  process for the address, and a non-null address becomes a definition of the dylib.
\<close>

record Generator =
  GenPrefix :: "char option"
  Dylib :: "(string \<times> JITTargetAddress) list"

definition getAddressOfSymbol :: "(string \<times> JITTargetAddress) list \<Rightarrow> string \<Rightarrow> JITTargetAddress" where
  "getAddressOfSymbol lib nm = (case map_of lib nm of None \<Rightarrow> 0 | Some a \<Rightarrow> a)"

definition tryToGenerate :: "Generator \<Rightarrow> string \<Rightarrow> JITTargetAddress" where
  "tryToGenerate g nm =
     (case nm of
        [] \<Rightarrow> 0
      | c # rest \<Rightarrow>
          (case GenPrefix g of
             None \<Rightarrow> getAddressOfSymbol (Dylib g) nm
           | Some p \<Rightarrow> if c \<noteq> p then 0 else getAddressOfSymbol (Dylib g) rest))"

text \<open>
  \<open>LLJIT\<close> compiles and links a module lazily: adding a module only defines its
  symbols in the main dylib, and the module is compiled and linked (materialized) when
  one of its symbols is looked up. Beside the dylib the model keeps, for each symbol
  defined by a module, what materializing that module reports.
\<close>

record LLJIT =
  LLJ_DataLayout :: DataLayout
  MainJITDylib :: JITDylib
  MainGenerator :: "Generator option"
  Materializers :: "(string \<times> llvm_Error option) list"

definition GetForCurrentProcess :: "Host \<Rightarrow> char option \<Rightarrow> llvm_Error + Generator" where
  "GetForCurrentProcess host prefix =
     (case currentProcess host of
        Inl err \<Rightarrow> Inl err
      | Inr lib \<Rightarrow> Inr \<lparr>GenPrefix = prefix, Dylib = lib\<rparr>)"

text \<open>\<open>LLJITBuilder().setJITTargetMachineBuilder(JTMB).create()\<close>\<close>

definition LLJIT_create :: "Host \<Rightarrow> JITTargetMachineBuilder \<Rightarrow> llvm_Error + LLJIT" where
  "LLJIT_create host JTMB =
     (case createTargetMachine host JTMB of
        Inl err \<Rightarrow> Inl err
      | Inr tm \<Rightarrow>
          Inr \<lparr>LLJ_DataLayout = createDataLayout tm, MainJITDylib = [],
               MainGenerator = None, Materializers = []\<rparr>)"

text \<open>
  \<open>LLJIT::addIRModule\<close>: the exported definitions of the module become definitions
  of the main dylib under their linker names, which fails only for a name the dylib
  defines already. Nothing is compiled or linked here.
\<close>

definition exportedSymbols :: "DataLayout \<Rightarrow> Module \<Rightarrow> SymbolMap" where
  "exportedSymbols dl M =
     map (\<lambda>d. (mangle dl (fst d), fst (snd d)))
       (filter (\<lambda>d. snd (snd d)) (definitions M))"

definition materialization :: "Module \<Rightarrow> llvm_Error option" where
  "materialization M =
     (case compileError M of Some err \<Rightarrow> Some err | None \<Rightarrow> linkError M)"

definition addIRModule :: "LLJIT \<Rightarrow> Module \<Rightarrow> llvm_Error + LLJIT" where
  "addIRModule J M =
     (case JD_define (MainJITDylib J) (exportedSymbols (LLJ_DataLayout J) M) of
        Inl err \<Rightarrow> Inl err
      | Inr JD \<Rightarrow>
          Inr (J\<lparr>MainJITDylib := JD,
                Materializers :=
                  map (\<lambda>kv. (fst kv, materialization M))
                    (exportedSymbols (LLJ_DataLayout J) M) @ Materializers J\<rparr>))"

text \<open>
  A symbol the dylib defines resolves to its address, after the module that defines
  it was materialized; when that fails, so does the lookup.
\<close>

definition resolve :: "LLJIT \<Rightarrow> string \<Rightarrow> JITTargetAddress \<Rightarrow> llvm_Error + (JITTargetAddress \<times> LLJIT)" where
  "resolve J mn a =
     (case map_of (Materializers J) mn of
        Some (Some err) \<Rightarrow> Inl (''Failed to materialize symbols: '' @ mn)
      | _ \<Rightarrow> Inr (a, J))"

text \<open>
  \<open>LLJIT::lookup(Name)\<close>: the mangled name is searched in the main dylib, then
  offered to its generator, whose definition is entered into the dylib.
\<close>

definition LLJIT_lookup :: "LLJIT \<Rightarrow> string \<Rightarrow> llvm_Error + (JITTargetAddress \<times> LLJIT)" where
  "LLJIT_lookup J nm =
     (let mn = mangle (LLJ_DataLayout J) nm
      in case map_of (MainJITDylib J) mn of
           Some a \<Rightarrow> resolve J mn a
         | None \<Rightarrow>
             (case MainGenerator J of
                None \<Rightarrow> Inl (''Symbols not found: '' @ mn)
              | Some g \<Rightarrow>
                  (let a = tryToGenerate g mn
                   in if a = 0 then Inl (''Symbols not found: '' @ mn)
                      else resolve (J\<lparr>MainJITDylib := MainJITDylib J @ [(mn, a)]\<rparr>) mn a)))"

record ModernImpl =
  TM :: TargetMachine
  LLJ :: LLJIT
  intrinsics :: "string set"

definition modern_new :: "Host \<Rightarrow> Runtime \<Rightarrow> failure + ModernImpl" where
  "modern_new host rt =
     (case assertSuccess (createTargetMachine host (makeTargetMachineBuilder host)) None of
        Inl f \<Rightarrow> Inl f
      | Inr tm \<Rightarrow>
     (case assertSuccess (LLJIT_create host (makeTargetMachineBuilder host)) None of
        Inl f \<Rightarrow> Inl f
      | Inr J \<Rightarrow>
     (case assertSuccess
             (GetForCurrentProcess host (GlobalPrefix (LLJ_DataLayout J))) None of
        Inl f \<Rightarrow> Inl f
      | Inr ProcSymbolsGenerator \<Rightarrow>
     (let J = J\<lparr>MainGenerator := Some ProcSymbolsGenerator\<rparr>
      in case registerIntrinsics rt (LLJ_DataLayout J) (MainJITDylib J, {}) of
           Inl f \<Rightarrow> Inl f
         | Inr (JD, intr) \<Rightarrow>
             Inr \<lparr>TM = tm, LLJ = J\<lparr>MainJITDylib := JD\<rparr>, intrinsics = intr\<rparr>))))"

definition modern_addModule :: "ModernImpl \<Rightarrow> Module \<Rightarrow> failure + ModernImpl" where
  "modern_addModule this M =
     (case assertSuccess (addIRModule (LLJ this) M)
             (Some ''Failed to add module to compile layer'') of
        Inl f \<Rightarrow> Inl f
      | Inr J \<Rightarrow> Inr (this\<lparr>LLJ := J\<rparr>))"

definition modern_findSymbol :: "ModernImpl \<Rightarrow> string \<Rightarrow> failure + (JITSymbol \<times> ModernImpl)" where
  "modern_findSymbol this Name =
     (case assertSuccess (LLJIT_lookup (LLJ this) Name) None of
        Inl f \<Rightarrow> Inl f
      | Inr (a, J) \<Rightarrow> Inr (Symbol a, this\<lparr>LLJ := J\<rparr>))"

definition modern_hasSymbol :: "ModernImpl \<Rightarrow> string \<Rightarrow> bool" where
  "modern_hasSymbol this Name = (Name \<in> intrinsics this)"

definition modern_getTargetMachine :: "ModernImpl \<Rightarrow> TargetMachine" where
  "modern_getTargetMachine this = TM this"

definition modern_getDataLayout :: "ModernImpl \<Rightarrow> DataLayout" where
  "modern_getDataLayout this = LLJ_DataLayout (LLJ this)"

subsection \<open>The implementation for the LLVM 8 snapshot\<close>

text \<open>
  The compile layer on top of the object linking layer keeps the objects of the added
  modules by \<open>VModuleKey\<close>, in key order; each object is the symbol table of its
  module under linker names, with the error linking it will give, if any.
  \<open>addModule\<close> compiles the module, which may fail, and stores the object without
  linking it: an object is linked when the address of one of its symbols is asked
  for. \<open>findSymbol\<close> returns the first object's symbol of that name (for
  \<open>ExportedSymbolsOnly\<close>, only an exported one) and the null symbol when there is
  none. \<open>removeModule\<close> erases the object of a key and returns success. That the
  key has an object is checked by a C \<open>assert\<close> of LLVM only, which exists when LLVM
  was built with assertions; without them erasing a key that has no object does
  nothing.
\<close>

type_synonym VModuleKey = nat

type_synonym ObjectTable = "(string \<times> JITTargetAddress \<times> bool) list"

type_synonym LinkedObject = "ObjectTable \<times> llvm_Error option"

type_synonym CompileLayer = "(VModuleKey \<times> LinkedObject) list"

definition getSymbol :: "LinkedObject \<Rightarrow> string \<Rightarrow> bool \<Rightarrow> JITSymbol" where
  "getSymbol obj nm ExportedSymbolsOnly =
     (case map_of (fst obj) nm of
        None \<Rightarrow> NullSymbol
      | Some (a, exported) \<Rightarrow>
          if \<not> exported \<and> ExportedSymbolsOnly then NullSymbol
          else (case snd obj of None \<Rightarrow> Symbol a | Some err \<Rightarrow> UnlinkedSymbol a err))"

fun CompileLayer_findSymbol :: "CompileLayer \<Rightarrow> string \<Rightarrow> bool \<Rightarrow> JITSymbol" where
  "CompileLayer_findSymbol [] nm ExportedSymbolsOnly = NullSymbol"
| "CompileLayer_findSymbol (KV # rest) nm ExportedSymbolsOnly =
     (case getSymbol (snd KV) nm ExportedSymbolsOnly of
        NullSymbol \<Rightarrow> CompileLayer_findSymbol rest nm ExportedSymbolsOnly
      | Sym \<Rightarrow> Sym)"

definition CompileLayer_addModule ::
  "DataLayout \<Rightarrow> CompileLayer \<Rightarrow> VModuleKey \<Rightarrow> Module \<Rightarrow> llvm_Error + CompileLayer" where
  "CompileLayer_addModule dl layer K M =
     (case compileError M of
        Some err \<Rightarrow> Inl err
      | None \<Rightarrow>
          Inr (layer @
               [(K, (map (\<lambda>d. (mangle dl (fst d), snd d)) (definitions M), linkError M))]))"

text \<open>
  The first argument says whether LLVM was built with assertions. The
  \<open>llvm::Error\<close> returned is success in every case.
\<close>

definition CompileLayer_removeModule ::
  "bool \<Rightarrow> CompileLayer \<Rightarrow> VModuleKey \<Rightarrow> failure + (llvm_Error option \<times> CompileLayer)" where
  "CompileLayer_removeModule LLVM_assertions layer K =
     (if LLVM_assertions \<and> map_of layer K = None
      then Inl (LibraryAssert ''VModuleKey not associated with object'')
      else Inr (None, filter (\<lambda>KV. fst KV \<noteq> K) layer))"


record LegacyImpl =
  ES_LastKey :: VModuleKey
  ES_MainJITDylib :: JITDylib
  L_TM :: TargetMachine
  L_DL :: DataLayout
  L_CompileLayer :: CompileLayer
  L_intrinsics :: "string set"
  L_process :: "(string \<times> JITTargetAddress) list"


text \<open>
  The constructor. \<open>LoadLibraryPermanently(nullptr)\<close> makes the symbols of the
  process visible; its result is not looked at.
\<close>

definition legacy_new :: "Host \<Rightarrow> Runtime \<Rightarrow> failure + LegacyImpl" where
  "legacy_new host rt =
     (case assertSuccess (createTargetMachine host (makeTargetMachineBuilder host)) None of
        Inl f \<Rightarrow> Inl f
      | Inr tm \<Rightarrow>
     (case registerIntrinsics rt (createDataLayout tm) ([], {}) of
        Inl f \<Rightarrow> Inl f
      | Inr (JD, intr) \<Rightarrow>
          Inr \<lparr>ES_LastKey = 0, ES_MainJITDylib = JD, L_TM = tm,
               L_DL = createDataLayout tm, L_CompileLayer = [], L_intrinsics = intr,
               L_process = (case currentProcess host of Inl err \<Rightarrow> [] | Inr lib \<Rightarrow> lib)\<rparr>))"

definition legacy_getTargetMachine :: "LegacyImpl \<Rightarrow> TargetMachine" where
  "legacy_getTargetMachine this = L_TM this"

definition legacy_addModule :: "LegacyImpl \<Rightarrow> Module \<Rightarrow> failure + LegacyImpl" where
  "legacy_addModule this M =
     (let K = ES_LastKey this + 1
      in case assertSuccess (CompileLayer_addModule (L_DL this) (L_CompileLayer this) K M)
                (Some ''Failed to add module to compile layer'') of
           Inl f \<Rightarrow> Inl f
         | Inr layer \<Rightarrow> Inr (this\<lparr>ES_LastKey := K, L_CompileLayer := layer\<rparr>))"

definition legacy_findSymbol :: "LegacyImpl \<Rightarrow> string \<Rightarrow> JITSymbol" where
  "legacy_findSymbol this Name =
     (let MangledName = mangle (L_DL this) Name
      in CompileLayer_findSymbol (L_CompileLayer this) MangledName True)"

definition legacy_hasSymbol :: "LegacyImpl \<Rightarrow> string \<Rightarrow> bool" where
  "legacy_hasSymbol this Name = (Name \<in> L_intrinsics this)"

text \<open>
  \<open>JITSymbol::getAddress\<close> gives the error of an error symbol, the address of a
  symbol, the null address of the null symbol, and links the object of a symbol not
  linked yet.
\<close>

definition getAddress :: "JITSymbol \<Rightarrow> llvm_Error + JITTargetAddress" where
  "getAddress Sym =
     (case Sym of
        NullSymbol \<Rightarrow> Inr 0
      | ErrorSymbol err \<Rightarrow> Inl err
      | Symbol a \<Rightarrow> Inr a
      | UnlinkedSymbol a err \<Rightarrow> Inl err)"

definition legacy_getSymbolAddress :: "LegacyImpl \<Rightarrow> string \<Rightarrow> failure + JITTargetAddress" where
  "legacy_getSymbolAddress this Name =
     assertSuccess (getAddress (legacy_findSymbol this Name)) None"

text \<open>\<open>removeModule\<close>; the first argument is that of \<open>CompileLayer_removeModule\<close>.\<close>

definition legacy_removeModule :: "bool \<Rightarrow> LegacyImpl \<Rightarrow> VModuleKey \<Rightarrow> failure + LegacyImpl" where
  "legacy_removeModule LLVM_assertions this K =
     (case CompileLayer_removeModule LLVM_assertions (L_CompileLayer this) K of
        Inl f \<Rightarrow> Inl f
      | Inr (err, layer) \<Rightarrow>
          (case assertSuccessE err None of
             Inl f \<Rightarrow> Inl f
           | Inr u \<Rightarrow> Inr (this\<lparr>L_CompileLayer := layer\<rparr>)))"

definition legacy_getDataLayout :: "LegacyImpl \<Rightarrow> DataLayout" where
  "legacy_getDataLayout this = L_DL this"

subsection \<open>The implementation class and the facade\<close>

text \<open>
  The preprocessor picks the class \<open>PytorchLLVMJITImpl\<close> from the LLVM version:
  major version 9 or later, the snapshot 20181009 of version 8, or else the build
  stops with \<open>#error\<close> and there is no program (\<open>None\<close>).
\<close>

datatype PytorchLLVMJITImpl = Modern ModernImpl | Legacy LegacyImpl

definition PytorchLLVMJITImpl_new ::
  "nat \<Rightarrow> nat \<Rightarrow> Host \<Rightarrow> Runtime \<Rightarrow> (failure + PytorchLLVMJITImpl) option" where
  "PytorchLLVMJITImpl_new LLVM_VERSION_MAJOR LLVM_VERSION_PATCH host rt =
     (if LLVM_VERSION_MAJOR \<ge> 9 then Some (map_sum id Modern (modern_new host rt))
      else if LLVM_VERSION_MAJOR = 8 \<and> LLVM_VERSION_PATCH = 20181009
      then Some (map_sum id Legacy (legacy_new host rt))
      else None)"

fun addModule :: "PytorchLLVMJITImpl \<Rightarrow> Module \<Rightarrow> failure + PytorchLLVMJITImpl" where
  "addModule (Modern this) M = map_sum id Modern (modern_addModule this M)"
| "addModule (Legacy this) M = map_sum id Legacy (legacy_addModule this M)"

fun findSymbol ::
  "PytorchLLVMJITImpl \<Rightarrow> string \<Rightarrow> failure + (JITSymbol \<times> PytorchLLVMJITImpl)" where
  "findSymbol (Modern this) Name =
     map_sum id (\<lambda>r. (fst r, Modern (snd r))) (modern_findSymbol this Name)"
| "findSymbol (Legacy this) Name = Inr (legacy_findSymbol this Name, Legacy this)"

fun hasSymbol :: "PytorchLLVMJITImpl \<Rightarrow> string \<Rightarrow> bool" where
  "hasSymbol (Modern this) Name = modern_hasSymbol this Name"
| "hasSymbol (Legacy this) Name = legacy_hasSymbol this Name"

fun getTargetMachine :: "PytorchLLVMJITImpl \<Rightarrow> TargetMachine" where
  "getTargetMachine (Modern this) = modern_getTargetMachine this"
| "getTargetMachine (Legacy this) = legacy_getTargetMachine this"

fun getDataLayout :: "PytorchLLVMJITImpl \<Rightarrow> DataLayout" where
  "getDataLayout (Modern this) = modern_getDataLayout this"
| "getDataLayout (Legacy this) = legacy_getDataLayout this"

text \<open>
  Modelled from the spec: the declaration of the facade class \<open>PytorchLLVMJIT\<close> and
  of its member \<open>impl_\<close> is in \<open>llvm_jit.h\<close>, which is not among the sources. The
  spec says that the facade exclusively owns one implementation instance and destroys
  it on its own destruction. So \<open>impl_\<close> (here \<open>impl\<close>) is an owning pointer: the
  address of an implementation object on the heap. The heap is the list of its cells,
  an address is an index, and a destroyed object leaves \<open>None\<close> in its cell.
  \<open>std::make_unique\<close> puts a new object into a new cell; the destructor of the owning
  pointer deletes the object it points to; going through a pointer to no object is
  undefined.
\<close>

type_synonym ImplHeap = "PytorchLLVMJITImpl option list"

record PytorchLLVMJIT =
  impl :: nat

definition make_unique :: "PytorchLLVMJITImpl \<Rightarrow> ImplHeap \<Rightarrow> nat \<times> ImplHeap" where
  "make_unique v h = (length h, h @ [Some v])"

definition deref :: "ImplHeap \<Rightarrow> nat \<Rightarrow> failure + PytorchLLVMJITImpl" where
  "deref h p =
     (if p < length h then (case h ! p of None \<Rightarrow> Inl OutOfBounds | Some v \<Rightarrow> Inr v)
      else Inl OutOfBounds)"

definition delete :: "nat \<Rightarrow> ImplHeap \<Rightarrow> failure + ImplHeap" where
  "delete p h =
     (case deref h p of Inl f \<Rightarrow> Inl f | Inr v \<Rightarrow> Inr (h[p := None]))"

text \<open>
  The constructor \<open>impl_(std::make_unique<PytorchLLVMJITImpl>())\<close>: when the
  constructor of the implementation throws, nothing was allocated.
\<close>

definition PytorchLLVMJIT_new ::
  "nat \<Rightarrow> nat \<Rightarrow> Host \<Rightarrow> Runtime \<Rightarrow> ImplHeap \<Rightarrow> (failure + (PytorchLLVMJIT \<times> ImplHeap)) option" where
  "PytorchLLVMJIT_new LLVM_VERSION_MAJOR LLVM_VERSION_PATCH host rt h =
     (case PytorchLLVMJITImpl_new LLVM_VERSION_MAJOR LLVM_VERSION_PATCH host rt of
        None \<Rightarrow> None
      | Some (Inl f) \<Rightarrow> Some (Inl f)
      | Some (Inr v) \<Rightarrow>
          (case make_unique v h of (p, h') \<Rightarrow> Some (Inr (\<lparr>impl = p\<rparr>, h'))))"

text \<open>\<open>~PytorchLLVMJIT() = default\<close>: the destructor destroys the member.\<close>

definition PytorchLLVMJIT_destroy :: "PytorchLLVMJIT \<Rightarrow> ImplHeap \<Rightarrow> failure + ImplHeap" where
  "PytorchLLVMJIT_destroy this h = delete (impl this) h"

definition PytorchLLVMJIT_addModule ::
  "PytorchLLVMJIT \<Rightarrow> Module \<Rightarrow> ImplHeap \<Rightarrow> failure + ImplHeap" where
  "PytorchLLVMJIT_addModule this M h =
     (case deref h (impl this) of
        Inl f \<Rightarrow> Inl f
      | Inr v \<Rightarrow>
          (case addModule v M of
             Inl f \<Rightarrow> Inl f
           | Inr v' \<Rightarrow> Inr (h[impl this := Some v'])))"

definition PytorchLLVMJIT_findSymbol ::
  "PytorchLLVMJIT \<Rightarrow> string \<Rightarrow> ImplHeap \<Rightarrow> failure + (JITSymbol \<times> ImplHeap)" where
  "PytorchLLVMJIT_findSymbol this Name h =
     (case deref h (impl this) of
        Inl f \<Rightarrow> Inl f
      | Inr v \<Rightarrow>
          (case findSymbol v Name of
             Inl f \<Rightarrow> Inl f
           | Inr (Sym, v') \<Rightarrow> Inr (Sym, h[impl this := Some v'])))"

definition PytorchLLVMJIT_hasSymbol ::
  "PytorchLLVMJIT \<Rightarrow> string \<Rightarrow> ImplHeap \<Rightarrow> failure + bool" where
  "PytorchLLVMJIT_hasSymbol this Name h =
     (case deref h (impl this) of Inl f \<Rightarrow> Inl f | Inr v \<Rightarrow> Inr (hasSymbol v Name))"

definition PytorchLLVMJIT_getTargetMachine ::
  "PytorchLLVMJIT \<Rightarrow> ImplHeap \<Rightarrow> failure + TargetMachine" where
  "PytorchLLVMJIT_getTargetMachine this h =
     (case deref h (impl this) of Inl f \<Rightarrow> Inl f | Inr v \<Rightarrow> Inr (getTargetMachine v))"

definition PytorchLLVMJIT_getDataLayout ::
  "PytorchLLVMJIT \<Rightarrow> ImplHeap \<Rightarrow> failure + DataLayout" where
  "PytorchLLVMJIT_getDataLayout this h =
     (case deref h (impl this) of Inl f \<Rightarrow> Inl f | Inr v \<Rightarrow> Inr (getDataLayout v))"

text \<open>
  A caller's use of an engine: a sequence of the five operations, each with its
  reply, run on the implementation itself and run through the facade. A failure ends
  the run.
\<close>

datatype Call =
    AddModule Module
  | FindSymbol string
  | HasSymbol string
  | GetTargetMachine
  | GetDataLayout

datatype Reply =
    Added
  | Found JITSymbol
  | Has bool
  | Machine TargetMachine
  | Layout DataLayout

fun call_impl :: "Call \<Rightarrow> PytorchLLVMJITImpl \<Rightarrow> failure + (Reply \<times> PytorchLLVMJITImpl)" where
  "call_impl (AddModule M) v =
     (case addModule v M of Inl f \<Rightarrow> Inl f | Inr v' \<Rightarrow> Inr (Added, v'))"
| "call_impl (FindSymbol Name) v =
     (case findSymbol v Name of Inl f \<Rightarrow> Inl f | Inr (Sym, v') \<Rightarrow> Inr (Found Sym, v'))"
| "call_impl (HasSymbol Name) v = Inr (Has (hasSymbol v Name), v)"
| "call_impl GetTargetMachine v = Inr (Machine (getTargetMachine v), v)"
| "call_impl GetDataLayout v = Inr (Layout (getDataLayout v), v)"

fun call_facade :: "Call \<Rightarrow> PytorchLLVMJIT \<Rightarrow> ImplHeap \<Rightarrow> failure + (Reply \<times> ImplHeap)" where
  "call_facade (AddModule M) this h =
     (case PytorchLLVMJIT_addModule this M h of Inl f \<Rightarrow> Inl f | Inr h' \<Rightarrow> Inr (Added, h'))"
| "call_facade (FindSymbol Name) this h =
     (case PytorchLLVMJIT_findSymbol this Name h of
        Inl f \<Rightarrow> Inl f
      | Inr (Sym, h') \<Rightarrow> Inr (Found Sym, h'))"
| "call_facade (HasSymbol Name) this h =
     (case PytorchLLVMJIT_hasSymbol this Name h of Inl f \<Rightarrow> Inl f | Inr b \<Rightarrow> Inr (Has b, h))"
| "call_facade GetTargetMachine this h =
     (case PytorchLLVMJIT_getTargetMachine this h of
        Inl f \<Rightarrow> Inl f
      | Inr tm \<Rightarrow> Inr (Machine tm, h))"
| "call_facade GetDataLayout this h =
     (case PytorchLLVMJIT_getDataLayout this h of
        Inl f \<Rightarrow> Inl f
      | Inr dl \<Rightarrow> Inr (Layout dl, h))"

fun run_impl :: "Call list \<Rightarrow> PytorchLLVMJITImpl \<Rightarrow> failure + (Reply list \<times> PytorchLLVMJITImpl)" where
  "run_impl [] v = Inr ([], v)"
| "run_impl (c # cs) v =
     (case call_impl c v of
        Inl f \<Rightarrow> Inl f
      | Inr (r, v') \<Rightarrow>
          (case run_impl cs v' of Inl f \<Rightarrow> Inl f | Inr (rs, v'') \<Rightarrow> Inr (r # rs, v'')))"

fun run_facade :: "Call list \<Rightarrow> PytorchLLVMJIT \<Rightarrow> ImplHeap \<Rightarrow> failure + (Reply list \<times> ImplHeap)" where
  "run_facade [] this h = Inr ([], h)"
| "run_facade (c # cs) this h =
     (case call_facade c this h of
        Inl f \<Rightarrow> Inl f
      | Inr (r, h') \<Rightarrow>
          (case run_facade cs this h' of Inl f \<Rightarrow> Inl f | Inr (rs, h'') \<Rightarrow> Inr (r # rs, h'')))"

section \<open>The conjugate fallback of \<open>aten/src/ATen/ConjugateFallback.cpp\<close>\<close>

subsection \<open>Schemas, values and tensors\<close>

record AliasInfo =
  isWrite :: bool

record Argument =
  alias_info :: "AliasInfo option"

record FunctionSchema =
  schema_name :: string
  arguments :: "Argument list"

text \<open>
  A \<open>Tensor\<close> is a handle to a \<open>TensorImpl\<close> that other handles may share, so the
  tensors live in a store and a handle is an index into it. Of a \<open>TensorImpl\<close> the
  model keeps the conjugate bit and the physical data. An \<open>IValue\<close> is a tensor or
  something else.
\<close>

record TensorImpl =
  is_conj :: bool
  storage :: "complex list"

datatype IValue = Tensor nat | Int int | NoneValue

type_synonym Stack = "IValue list"

type_synonym DispatchKeySet = "64 word"

text \<open>
  The state the fallback works on: the argument stack, the tensors, and the record of
  the redispatches made so far (the key set and the stack each was called with).
\<close>

record World =
  stack :: Stack
  tensors :: "TensorImpl list"
  redispatched :: "(DispatchKeySet \<times> Stack) list"

text \<open>
  An operator has its schema and its boxed kernel behind the dispatcher. The kernel is
  any function: it may throw, replace the stack and change the tensors.
\<close>

record OperatorHandle =
  schema :: FunctionSchema
  kernel :: "DispatchKeySet \<Rightarrow> Stack \<times> TensorImpl list \<Rightarrow> failure option \<times> Stack \<times> TensorImpl list"

definition redispatchBoxed :: "OperatorHandle \<Rightarrow> DispatchKeySet \<Rightarrow> World \<Rightarrow> failure option \<times> World" where
  "redispatchBoxed oph ks w =
     (case kernel oph ks (stack w, tensors w) of
        (r, st, ts) \<Rightarrow>
          (r, \<lparr>stack = st, tensors = ts, redispatched = redispatched w @ [(ks, stack w)]\<rparr>))"

text \<open>
  The ATen functions the fallback calls are defined outside this file. They are
  modelled by what the comments of \<open>conjugateFallback\<close> say of them:
  \<open>conj_physical_\<close> conjugates the physical data in place, \<open>set_conj\<close> writes the
  conjugate bit, and \<open>resolve_conj\<close> returns the tensor itself when its bit is clear
  and otherwise a new tensor with the bit clear that holds the conjugated data.
\<close>

definition conj_physical_inplace :: "nat \<Rightarrow> TensorImpl list \<Rightarrow> TensorImpl list" where
  "conj_physical_inplace t ts = ts[t := (ts ! t)\<lparr>storage := map cnj (storage (ts ! t))\<rparr>]"

definition set_conj :: "nat \<Rightarrow> bool \<Rightarrow> TensorImpl list \<Rightarrow> TensorImpl list" where
  "set_conj t b ts = ts[t := (ts ! t)\<lparr>is_conj := b\<rparr>]"

definition resolve_conj :: "nat \<Rightarrow> TensorImpl list \<Rightarrow> nat \<times> TensorImpl list" where
  "resolve_conj t ts =
     (if \<not> is_conj (ts ! t) then (t, ts)
      else (length ts, ts @ [\<lparr>is_conj = False, storage = map cnj (storage (ts ! t))\<rparr>]))"

subsection \<open>The fallback\<close>

definition mixMessage :: "string \<Rightarrow> string" where
  "mixMessage nm =
     ''Unsupported operator for conjugate fallback: '' @ nm @
     ''Conjugate fallback doesn'' @ [CHR 0x27] @ ''t work for operators with a mix '' @
     ''mutable and non-mutable inputs that alias with outputs, '' @
     ''this must be implemented manually.  '' @
     ''If you got this error on a core op, please report a bug to PyTorch.''"

text \<open>The first loop, over the arguments of the schema, with \<open>is_write\<close> as state.\<close>

fun is_write_loop :: "string \<Rightarrow> Argument list \<Rightarrow> bool option \<Rightarrow> failure + bool option" where
  "is_write_loop nm [] is_write = Inr is_write"
| "is_write_loop nm (argument # rest) is_write =
     (case alias_info argument of
        None \<Rightarrow> is_write_loop nm rest is_write
      | Some ai \<Rightarrow>
          (case is_write of
             Some b \<Rightarrow>
               if b = isWrite ai then is_write_loop nm rest is_write
               else Inl (Check (mixMessage nm))
           | None \<Rightarrow> is_write_loop nm rest (Some (isWrite ai))))"

text \<open>
  The body of the second loop for one argument; \<open>k\<close> is \<open>stack_start + i\<close>. It
  returns no failure when the iteration ends or continues. The debug-only assertion is
  kept as a check.
\<close>

definition materialize_body ::
  "Argument \<Rightarrow> nat \<Rightarrow> World \<times> nat list \<Rightarrow> failure option \<times> World \<times> nat list" where
  "materialize_body argument k st =
     (case st of (w, mutable_inputs) \<Rightarrow>
      if k \<ge> length (stack w) then (Some OutOfBounds, w, mutable_inputs)
      else
        (case stack w ! k of
           Tensor t \<Rightarrow>
             (if (case alias_info argument of None \<Rightarrow> False | Some ai \<Rightarrow> \<not> isWrite ai)
              then (Some (InternalAssert ''argument.alias_info()->isWrite()''), w, mutable_inputs)
              else
                (let mut_arg = (alias_info argument \<noteq> None)
                 in if t \<ge> length (tensors w) then (Some OutOfBounds, w, mutable_inputs)
                    else if \<not> is_conj (tensors w ! t) then (None, w, mutable_inputs)
                    else if mut_arg
                    then (None,
                          w\<lparr>tensors := set_conj t False (conj_physical_inplace t (tensors w)),
                            stack := (stack w)[k := Tensor t]\<rparr>,
                          mutable_inputs @ [t])
                    else
                      (case resolve_conj t (tensors w) of
                         (t', ts) \<Rightarrow>
                           (None, w\<lparr>tensors := ts, stack := (stack w)[k := Tensor t']\<rparr>,
                            mutable_inputs))))
         | _ \<Rightarrow> (None, w, mutable_inputs)))"

text \<open>The second loop; the list holds the arguments from \<open>i\<close> on.\<close>

fun materialize_loop ::
  "Argument list \<Rightarrow> nat \<Rightarrow> World \<times> nat list \<Rightarrow> failure option \<times> World \<times> nat list" where
  "materialize_loop [] k st = (None, st)"
| "materialize_loop (argument # rest) k st =
     (case materialize_body argument k st of
        (Some f, st') \<Rightarrow> (Some f, st')
      | (None, st') \<Rightarrow> materialize_loop rest (k + 1) st')"

text \<open>The last loop, over \<open>mutable_inputs\<close>.\<close>

fun restore_loop :: "nat list \<Rightarrow> World \<Rightarrow> failure option \<times> World" where
  "restore_loop [] w = (None, w)"
| "restore_loop (mutable_input # rest) w =
     (if mutable_input \<ge> length (tensors w) then (Some OutOfBounds, w)
      else restore_loop rest
             (w\<lparr>tensors := set_conj mutable_input True
                              (conj_physical_inplace mutable_input (tensors w))\<rparr>))"

text \<open>
  \<open>conjugateFallback(op, dispatch_keys, stack)\<close>. The constant
  \<open>DispatchKeySet(FULL_AFTER, Conjugate)\<close> comes from outside the file and is the first
  argument. The result is the failure thrown, if any, and the state left behind.
\<close>

definition conjugateFallback ::
  "DispatchKeySet \<Rightarrow> OperatorHandle \<Rightarrow> DispatchKeySet \<Rightarrow> World \<Rightarrow> failure option \<times> World" where
  "conjugateFallback after_Conjugate oph dispatch_keys w =
     (let num_arguments = length (arguments (schema oph));
          stack_start = length (stack w) - num_arguments
      in case is_write_loop (schema_name (schema oph)) (arguments (schema oph)) None of
           Inl f \<Rightarrow> (Some f, w)
         | Inr is_write \<Rightarrow>
             if is_write = Some False
             then redispatchBoxed oph (dispatch_keys AND after_Conjugate) w
             else if length (stack w) < num_arguments then (Some OutOfBounds, w)
             else
               (case materialize_loop (arguments (schema oph)) stack_start (w, []) of
                  (Some f, w1, mutable_inputs) \<Rightarrow> (Some f, w1)
                | (None, w1, mutable_inputs) \<Rightarrow>
                    (case redispatchBoxed oph (dispatch_keys AND after_Conjugate) w1 of
                       (Some f, w2) \<Rightarrow> (Some f, w2)
                     | (None, w2) \<Rightarrow> restore_loop mutable_inputs w2)))"

section \<open>Words of the specification and example inputs\<close>

text \<open>
  The names the intrinsic table enumerates: the \<open>symbol\<close> fields before the closing
  entry.
\<close>

fun enumerated :: "SymbolAddressIf list \<Rightarrow> string list" where
  "enumerated [] = []"
| "enumerated (syms # rest) =
     (case symbol syms of None \<Rightarrow> [] | Some nm \<Rightarrow> nm # enumerated rest)"

text \<open>
  A Linux host with two CPU features and a process that has \<open>malloc\<close> and
  \<open>log10f\<close>; a table with the one intrinsic \<open>log10f\<close>; and the two engines the
  constructors build from them.
\<close>

definition example_host :: Host where
  "example_host =
     \<lparr>getProcessTriple = ''x86_64-unknown-linux-gnu'',
      getHostCPUName = ''skylake'',
      getHostCPUFeatures = [(''avx2'', True), (''sse4a'', False)],
      lookupTarget = Inr \<lparr>GlobalPrefix = None\<rparr>,
      currentProcess = Inr [(''malloc'', 0x3000), (''log10f'', 0x4000)]\<rparr>"

definition example_rt :: Runtime where
  "example_rt =
     \<lparr>getSymbols = [\<lparr>symbol = Some ''log10f'', address = 0x1000\<rparr>,
                    \<lparr>symbol = None, address = 0\<rparr>],
      DispatchParallel = 0x2000\<rparr>"

definition example_tm :: TargetMachine where
  "example_tm =
     \<lparr>TargetTriple = ''x86_64-unknown-linux-gnu'', TargetCPU = ''skylake'',
      TargetFS = [''+avx2'', ''-sse4a''], TargetOptLevel = OptDefault,
      TargetFPOpFusion = Fast, TargetDataLayout = \<lparr>GlobalPrefix = None\<rparr>\<rparr>"

definition example_modern :: ModernImpl where
  "example_modern =
     \<lparr>TM = example_tm,
      LLJ = \<lparr>LLJ_DataLayout = \<lparr>GlobalPrefix = None\<rparr>,
             MainJITDylib = [(''log10f'', 0x1000), (''DispatchParallel'', 0x2000)],
             MainGenerator =
               Some \<lparr>GenPrefix = None,
                     Dylib = [(''malloc'', 0x3000), (''log10f'', 0x4000)]\<rparr>,
             Materializers = []\<rparr>,
      intrinsics = {''log10f''}\<rparr>"

definition example_legacy :: LegacyImpl where
  "example_legacy =
     \<lparr>ES_LastKey = 0,
      ES_MainJITDylib = [(''log10f'', 0x1000), (''DispatchParallel'', 0x2000)],
      L_TM = example_tm, L_DL = \<lparr>GlobalPrefix = None\<rparr>, L_CompileLayer = [],
      L_intrinsics = {''log10f''},
      L_process = [(''malloc'', 0x3000), (''log10f'', 0x4000)]\<rparr>"

text \<open>
  What the second loop has done to the tensors when it ends: \<open>new\<close> are the handles
  it put into \<open>mutable_inputs\<close>, each once, each a tensor whose bit was set and is
  now clear and whose data is conjugated; the other tensors that existed are as they
  were; and the tensors made since have a clear bit.
\<close>

definition prepared :: "TensorImpl list \<Rightarrow> nat list \<Rightarrow> TensorImpl list \<Rightarrow> bool" where
  "prepared ts new ts' \<longleftrightarrow>
     length ts \<le> length ts' \<and> distinct new \<and>
     (\<forall>t \<in> set new. t < length ts \<and> is_conj (ts ! t) \<and> \<not> is_conj (ts' ! t) \<and>
        storage (ts' ! t) = map cnj (storage (ts ! t))) \<and>
     (\<forall>t < length ts. t \<notin> set new \<longrightarrow> ts' ! t = ts ! t) \<and>
     (\<forall>t. length ts \<le> t \<and> t < length ts' \<longrightarrow> \<not> is_conj (ts' ! t))"

text \<open>An in-place addition whose kernel leaves its first argument on the stack.\<close>

definition example_op :: OperatorHandle where
  "example_op =
     \<lparr>schema = \<lparr>schema_name = ''aten::add_'',
                 arguments = [\<lparr>alias_info = Some \<lparr>isWrite = True\<rparr>\<rparr>,
                              \<lparr>alias_info = None\<rparr>]\<rparr>,
      kernel = (\<lambda>ks p. (None, take 1 (fst p), snd p))\<rparr>"

definition example_world :: World where
  "example_world =
     \<lparr>stack = [Tensor 0, Tensor 1],
      tensors = [\<lparr>is_conj = True, storage = [Complex 1 2]\<rparr>,
                 \<lparr>is_conj = True, storage = [Complex 0 1]\<rparr>],
      redispatched = []\<rparr>"


text \<open>The state the fallback leaves when called for \<open>example_op\<close> in \<open>example_world\<close>.\<close>

definition example_world_after :: World where
  "example_world_after =
     \<lparr>stack = [Tensor 0],
      tensors = [\<lparr>is_conj = True, storage = [Complex 1 2]\<rparr>,
                 \<lparr>is_conj = True, storage = [Complex 0 1]\<rparr>,
                 \<lparr>is_conj = False, storage = [Complex 0 (- 1)]\<rparr>],
      redispatched = [(0xFF, [Tensor 0, Tensor 2])]\<rparr>"

text \<open>
  A module that defines \<open>foo\<close>; a module that defines a function with the name of
  the intrinsic \<open>log10f\<close>; a module that defines \<open>foo\<close> and does not link, because
  it calls a function \<open>bar\<close> that nothing defines; and a module that does not
  compile.
\<close>

definition module_foo :: Module where
  "module_foo =
     \<lparr>compileError = None, linkError = None, definitions = [(''foo'', 0x6000, True)]\<rparr>"




text \<open>The example engines after one of these modules was added.\<close>

definition example_modern_foo :: ModernImpl where
  "example_modern_foo =
     example_modern\<lparr>LLJ := (LLJ example_modern)
       \<lparr>MainJITDylib := [(''log10f'', 0x1000), (''DispatchParallel'', 0x2000),
                         (''foo'', 0x6000)],
        Materializers := [(''foo'', None)]\<rparr>\<rparr>"



definition example_legacy_foo :: LegacyImpl where
  "example_legacy_foo =
     example_legacy\<lparr>ES_LastKey := 1,
       L_CompileLayer := [(1, ([(''foo'', 0x6000, True)], None))]\<rparr>"


section \<open>Properties\<close>

subsection \<open>Target machine builder\<close>

lemma toLower_sign [simp]: "toLower (CHR ''+'') = CHR ''+''" "toLower (CHR ''-'') = CHR ''-''"
  by (simp_all add: toLower_def)

lemma toLower_idem [simp]: "toLower (toLower c) = toLower c"
proof -
  have "of_char c < (256::nat)" by simp
  then show ?thesis
    by (auto simp add: toLower_def Let_def)
qed

lemma AddFeature_keeps: "x \<in> set fs \<Longrightarrow> x \<in> set (AddFeature fs s b)"
  by (simp add: AddFeature_def)

lemma fold_AddFeature_keeps:
  "x \<in> set fs \<Longrightarrow> x \<in> set (fold (\<lambda>F acc. AddFeature acc (fst F) (snd F)) hs fs)"
  by (induction hs arbitrary: fs) (simp_all add: AddFeature_keeps)

lemma fold_AddFeature_mem:
  "(f, b) \<in> set hs \<Longrightarrow> f \<noteq> [] \<Longrightarrow> \<not> hasFlag f \<Longrightarrow>
   (if b then CHR ''+'' else CHR ''-'') # map toLower f
     \<in> set (fold (\<lambda>F acc. AddFeature acc (fst F) (snd F)) hs fs)"
proof (induction hs arbitrary: fs)
  case Nil
  then show ?case by simp
next
  case (Cons h hs)
  show ?case
  proof (cases "h = (f, b)")
    case True
    have "(if b then CHR ''+'' else CHR ''-'') # map toLower f \<in> set (AddFeature fs f b)"
      using Cons.prems by (simp add: AddFeature_def)
    then show ?thesis
      using True by (simp add: fold_AddFeature_keeps)
  next
    case False
    then have "(f, b) \<in> set hs" using Cons.prems by simp
    then show ?thesis using Cons.IH Cons.prems by simp
  qed
qed

lemma fold_readd_keeps:
  "x \<in> set fs \<Longrightarrow> x \<in> set (fold (\<lambda>f acc. AddFeature acc f True) fv fs)"
  by (induction fv arbitrary: fs) (simp_all add: AddFeature_keeps)

lemma fold_readd_mem:
  "s # t \<in> set fv \<Longrightarrow> s = CHR ''+'' \<or> s = CHR ''-'' \<Longrightarrow>
   s # map toLower t \<in> set (fold (\<lambda>f acc. AddFeature acc f True) fv fs)"
proof (induction fv arbitrary: fs)
  case Nil
  then show ?case by simp
next
  case (Cons h fv)
  show ?case
  proof (cases "h = s # t")
    case True
    have "s # map toLower t \<in> set (AddFeature fs (s # t) True)"
      using Cons.prems(2) by (auto simp add: AddFeature_def hasFlag_def)
    then show ?thesis
      using True by (simp add: fold_readd_keeps)
  next
    case False
    then have "s # t \<in> set fv" using Cons.prems by simp
    then show ?thesis using Cons.IH Cons.prems by simp
  qed
qed

text \<open>
  C4. The builder takes no argument but the host. Its description has the host's CPU
  name, the default optimisation level and the fast floating-point fusion mode, and
  its feature list holds every host feature flag, lowercased and signed with \<open>+\<close>
  when the host reports it enabled and with \<open>-\<close> otherwise.
\<close>

theorem makeTargetMachineBuilder_description:
  "CPU (makeTargetMachineBuilder host) = getHostCPUName host \<and>
   OptLevel (makeTargetMachineBuilder host) = OptDefault \<and>
   AllowFPOpFusion (makeTargetMachineBuilder host) = Fast \<and>
   TT (makeTargetMachineBuilder host) = getProcessTriple host \<and>
   (\<forall>(f, b) \<in> set (getHostCPUFeatures host).
      f \<noteq> [] \<and> \<not> hasFlag f \<longrightarrow>
      (if b then CHR ''+'' else CHR ''-'') # map toLower f
        \<in> set (Features (makeTargetMachineBuilder host)))"
proof -
  have feat: "(if b then CHR ''+'' else CHR ''-'') # map toLower f
        \<in> set (Features (makeTargetMachineBuilder host))"
    if "(f, b) \<in> set (getHostCPUFeatures host)" "f \<noteq> []" "\<not> hasFlag f" for f b
  proof -
    let ?s = "if b then CHR ''+'' else CHR ''-''"
    have "?s # map toLower f
        \<in> set (fold (\<lambda>F acc. AddFeature acc (fst F) (snd F)) (getHostCPUFeatures host) [])"
      using that by (rule fold_AddFeature_mem)
    moreover have "?s = CHR ''+'' \<or> ?s = CHR ''-''" by simp
    ultimately have "?s # map toLower (map toLower f)
        \<in> set (fold (\<lambda>f acc. AddFeature acc f True)
            (fold (\<lambda>F acc. AddFeature acc (fst F) (snd F)) (getHostCPUFeatures host) []) [])"
      by (rule fold_readd_mem)
    then show ?thesis
      by (simp add: makeTargetMachineBuilder_def addFeatures_def
          JITTargetMachineBuilder_init_def Let_def comp_def)
  qed
  have scalars: "CPU (makeTargetMachineBuilder host) = getHostCPUName host"
    "OptLevel (makeTargetMachineBuilder host) = OptDefault"
    "AllowFPOpFusion (makeTargetMachineBuilder host) = Fast"
    "TT (makeTargetMachineBuilder host) = getProcessTriple host"
    by (simp_all add: makeTargetMachineBuilder_def addFeatures_def
        JITTargetMachineBuilder_init_def Let_def)
  from feat have "\<forall>(f, b) \<in> set (getHostCPUFeatures host).
      f \<noteq> [] \<and> \<not> hasFlag f \<longrightarrow>
      (if b then CHR ''+'' else CHR ''-'') # map toLower f
        \<in> set (Features (makeTargetMachineBuilder host))"
    by blast
  with scalars show ?thesis by blast
qed

theorem makeTargetMachineBuilder_description_witness:
  "(''avx2'', True) \<in> set (getHostCPUFeatures example_host) \<and>
   (''sse4a'', False) \<in> set (getHostCPUFeatures example_host) \<and>
   ''+avx2'' \<in> set (Features (makeTargetMachineBuilder example_host)) \<and>
   ''-sse4a'' \<in> set (Features (makeTargetMachineBuilder example_host)) \<and>
   CPU (makeTargetMachineBuilder example_host) = ''skylake'' \<and>
   OptLevel (makeTargetMachineBuilder example_host) = OptDefault \<and>
   AllowFPOpFusion (makeTargetMachineBuilder example_host) = Fast"
  using makeTargetMachineBuilder_description [of example_host]
  by (simp add: example_host_def hasFlag_def toLower_def)

subsection \<open>Construction and the intrinsic query\<close>

lemma map_sum_eq_Inr: "map_sum f g x = Inr y \<longleftrightarrow> (\<exists>v. x = Inr v \<and> y = g v)"
  by (cases x) auto


lemma example_modern_new: "modern_new example_host example_rt = Inr example_modern"
  by (simp add: modern_new_def example_host_def example_rt_def example_modern_def
      example_tm_def assertSuccess_def createTargetMachine_def LLJIT_create_def
      createDataLayout_def GetForCurrentProcess_def registerIntrinsics_def JD_define_def
      entry_def mangle_def toAddress_def makeTargetMachineBuilder_def addFeatures_def
      AddFeature_def hasFlag_def toLower_def JITTargetMachineBuilder_init_def Let_def)

lemma example_legacy_new: "legacy_new example_host example_rt = Inr example_legacy"
  by (simp add: legacy_new_def example_host_def example_rt_def example_legacy_def
      example_tm_def assertSuccess_def createTargetMachine_def
      createDataLayout_def registerIntrinsics_def JD_define_def
      entry_def mangle_def toAddress_def makeTargetMachineBuilder_def addFeatures_def
      AddFeature_def hasFlag_def toLower_def JITTargetMachineBuilder_init_def)

lemma registerIntrinsics_loop_intrinsics:
  "registerIntrinsics_loop dl tab (JD, I) = Inr (JD', I') \<Longrightarrow> I' = I \<union> set (enumerated tab)"
proof (induction tab arbitrary: JD I)
  case Nil
  then show ?case by simp
next
  case (Cons e rest)
  show ?case
  proof (cases "symbol e")
    case None
    with Cons.prems show ?thesis by simp
  next
    case (Some nm)
    with Cons.prems obtain JD1 where
      "registerIntrinsics_loop dl rest (JD1, insert nm I) = Inr (JD', I')"
      by (auto split: sum.splits)
    from Cons.IH [OF this] Some show ?thesis by simp
  qed
qed

lemma registerIntrinsics_intrinsics:
  "registerIntrinsics rt dl (JD, I) = Inr (JD', I') \<Longrightarrow> I' = I \<union> set (enumerated (getSymbols rt))"
  by (auto simp add: registerIntrinsics_def split: sum.splits dest: registerIntrinsics_loop_intrinsics)

lemma modern_new_intrinsics:
  "modern_new host rt = Inr m \<Longrightarrow> intrinsics m = set (enumerated (getSymbols rt))"
  by (auto simp add: modern_new_def Let_def split: sum.splits dest: registerIntrinsics_intrinsics)

lemma legacy_new_intrinsics:
  "legacy_new host rt = Inr l \<Longrightarrow> L_intrinsics l = set (enumerated (getSymbols rt))"
  by (auto simp add: legacy_new_def split: sum.splits dest: registerIntrinsics_intrinsics)

lemma modern_addModule_intrinsics:
  "modern_addModule m M = Inr m' \<Longrightarrow> intrinsics m' = intrinsics m"
  by (auto simp add: modern_addModule_def split: sum.splits)

lemma legacy_addModule_intrinsics:
  "legacy_addModule l M = Inr l' \<Longrightarrow> L_intrinsics l' = L_intrinsics l"
  by (auto simp add: legacy_addModule_def Let_def split: sum.splits)

lemma new_intrinsics:
  assumes "PytorchLLVMJITImpl_new major patch host rt = Some (Inr e)"
  shows "hasSymbol e nm \<longleftrightarrow> nm \<in> set (enumerated (getSymbols rt))"
proof (cases e)
  case (Modern m)
  with assms have "modern_new host rt = Inr m"
    by (auto simp add: PytorchLLVMJITImpl_new_def map_sum_eq_Inr split: if_splits)
  then show ?thesis
    using Modern by (simp add: modern_hasSymbol_def modern_new_intrinsics)
next
  case (Legacy l)
  with assms have "legacy_new host rt = Inr l"
    by (auto simp add: PytorchLLVMJITImpl_new_def map_sum_eq_Inr split: if_splits)
  then show ?thesis
    using Legacy by (simp add: legacy_hasSymbol_def legacy_new_intrinsics)
qed

lemma addModule_hasSymbol:
  assumes "addModule e M = Inr e'"
  shows "hasSymbol e' nm \<longleftrightarrow> hasSymbol e nm"
proof (cases e)
  case (Modern m)
  with assms obtain m' where "e' = Modern m'" "modern_addModule m M = Inr m'"
    by (auto simp add: map_sum_eq_Inr)
  then show ?thesis
    using Modern by (simp add: modern_hasSymbol_def modern_addModule_intrinsics)
next
  case (Legacy l)
  with assms obtain l' where "e' = Legacy l'" "legacy_addModule l M = Inr l'"
    by (auto simp add: map_sum_eq_Inr)
  then show ?thesis
    using Legacy by (simp add: legacy_hasSymbol_def legacy_addModule_intrinsics)
qed

text \<open>
  C1, as the code has it. On every engine the constructor returns, of either
  implementation, \<open>hasSymbol\<close> is true exactly for the names the intrinsic table
  enumerates, and adding a module does not change that. The entry
  \<open>DispatchParallel\<close> is defined in the dylib but not inserted into the query set, so
  \<open>hasSymbol\<close> is true for it only when the table enumerates that name too.
\<close>

theorem hasSymbol_iff_enumerated:
  assumes "PytorchLLVMJITImpl_new major patch host rt = Some (Inr e)"
  shows "(hasSymbol e nm \<longleftrightarrow> nm \<in> set (enumerated (getSymbols rt))) \<and>
         (\<forall>M e'. addModule e M = Inr e' \<longrightarrow>
            (hasSymbol e' nm \<longleftrightarrow> nm \<in> set (enumerated (getSymbols rt))))"
  using assms by (simp add: new_intrinsics addModule_hasSymbol)

theorem hasSymbol_iff_enumerated_witness:
  "PytorchLLVMJITImpl_new 9 0 example_host example_rt = Some (Inr (Modern example_modern)) \<and>
   hasSymbol (Modern example_modern) ''log10f'' \<and>
   \<not> hasSymbol (Modern example_modern) ''sinf'' \<and>
   ''log10f'' \<in> set (enumerated (getSymbols example_rt))"
proof -
  have new: "PytorchLLVMJITImpl_new 9 0 example_host example_rt = Some (Inr (Modern example_modern))"
    by (simp add: PytorchLLVMJITImpl_new_def example_modern_new)
  have "''log10f'' \<in> set (enumerated (getSymbols example_rt))"
       "''sinf'' \<notin> set (enumerated (getSymbols example_rt))"
    by (simp_all add: example_rt_def)
  with new hasSymbol_iff_enumerated [OF new, of "''log10f''"]
    hasSymbol_iff_enumerated [OF new, of "''sinf''"]
  show ?thesis by simp
qed

text \<open>
  The engine built from the example table resolves \<open>DispatchParallel\<close> in its dylib,
  and \<open>hasSymbol\<close> is false for it.
\<close>

theorem hasSymbol_DispatchParallel_counterexample:
  "PytorchLLVMJITImpl_new 9 0 example_host example_rt = Some (Inr (Modern example_modern)) \<and>
   map_of (MainJITDylib (LLJ example_modern)) ''DispatchParallel'' = Some 0x2000 \<and>
   \<not> hasSymbol (Modern example_modern) ''DispatchParallel''"
  by (simp add: PytorchLLVMJITImpl_new_def example_modern_new)
     (simp add: example_modern_def modern_hasSymbol_def)

subsection \<open>Symbol lookup\<close>

lemma mangle_inject [simp]: "mangle dl a = mangle dl b \<longleftrightarrow> a = b"
  by (simp add: mangle_def split: option.splits)

lemma JD_define_single:
  "JD_define JD [kv] = Inr JD' \<Longrightarrow> JD' = JD @ [kv] \<and> map_of JD (fst kv) = None"
  by (auto simp add: JD_define_def split: if_splits list.splits)

lemma registerIntrinsics_loop_dylib:
  "registerIntrinsics_loop dl tab (JD, I) = Inr (JD', I') \<Longrightarrow>
   fst ` set JD' = fst ` set JD \<union> mangle dl ` set (enumerated tab)"
proof (induction tab arbitrary: JD I)
  case Nil
  then show ?case by simp
next
  case (Cons e rest)
  show ?case
  proof (cases "symbol e")
    case None
    with Cons.prems show ?thesis by simp
  next
    case (Some nm)
    with Cons.prems obtain JD1 where
      d: "JD_define JD [entry dl nm (address e)] = Inr JD1" and
      r: "registerIntrinsics_loop dl rest (JD1, insert nm I) = Inr (JD', I')"
      by (auto simp add: assertSuccess_def split: sum.splits)
    from JD_define_single [OF d] have "fst ` set JD1 = fst ` set JD \<union> {mangle dl nm}"
      by (auto simp add: entry_def)
    with Cons.IH [OF r] Some show ?thesis by auto
  qed
qed

lemma registerIntrinsics_dylib:
  assumes "registerIntrinsics rt dl ([], {}) = Inr (JD', I')"
  shows "fst ` set JD' = mangle dl ` (insert ''DispatchParallel'' (set (enumerated (getSymbols rt))))"
proof -
  from assms obtain JD1 I1 where
    l: "registerIntrinsics_loop dl (getSymbols rt) ([], {}) = Inr (JD1, I1)" and
    d: "JD_define JD1 [entry dl ''DispatchParallel'' (DispatchParallel rt)] = Inr JD'"
    by (auto simp add: registerIntrinsics_def assertSuccess_def split: sum.splits)
  from registerIntrinsics_loop_dylib [OF l] JD_define_single [OF d]
  show ?thesis by (auto simp add: entry_def)
qed

lemma modern_new_dylib:
  assumes "modern_new host rt = Inr m"
  shows "fst ` set (MainJITDylib (LLJ m)) =
           mangle (LLJ_DataLayout (LLJ m)) `
             (insert ''DispatchParallel'' (set (enumerated (getSymbols rt))))"
    and "\<exists>lib. currentProcess host = Inr lib \<and>
           MainGenerator (LLJ m) =
             Some \<lparr>GenPrefix = GlobalPrefix (LLJ_DataLayout (LLJ m)), Dylib = lib\<rparr>"
proof -
  from assms obtain tm J g JD I where
    J: "LLJIT_create host (makeTargetMachineBuilder host) = Inr J" and
    g: "GetForCurrentProcess host (GlobalPrefix (LLJ_DataLayout J)) = Inr g" and
    r: "registerIntrinsics rt (LLJ_DataLayout J) (MainJITDylib J, {}) = Inr (JD, I)" and
    m: "m = \<lparr>TM = tm, LLJ = J\<lparr>MainGenerator := Some g, MainJITDylib := JD\<rparr>, intrinsics = I\<rparr>"
    by (auto simp add: modern_new_def assertSuccess_def Let_def split: sum.splits)
  from J have "MainJITDylib J = []"
    by (auto simp add: LLJIT_create_def split: sum.splits)
  with r registerIntrinsics_dylib [of rt "LLJ_DataLayout J" JD I] m
  show "fst ` set (MainJITDylib (LLJ m)) =
           mangle (LLJ_DataLayout (LLJ m)) `
             (insert ''DispatchParallel'' (set (enumerated (getSymbols rt))))"
    by simp
  from g m show "\<exists>lib. currentProcess host = Inr lib \<and>
           MainGenerator (LLJ m) =
             Some \<lparr>GenPrefix = GlobalPrefix (LLJ_DataLayout (LLJ m)), Dylib = lib\<rparr>"
    by (auto simp add: GetForCurrentProcess_def split: sum.splits)
qed

lemma tryToGenerate_absent:
  "map_of lib nm = None \<Longrightarrow>
   tryToGenerate \<lparr>GenPrefix = GlobalPrefix dl, Dylib = lib\<rparr> (mangle dl nm) = 0"
  by (auto simp add: tryToGenerate_def mangle_def getAddressOfSymbol_def
      split: list.splits option.splits)

lemma modern_lookup_fails:
  assumes "map_of (MainJITDylib (LLJ m)) (mangle (LLJ_DataLayout (LLJ m)) nm) = None"
    and "\<And>g. MainGenerator (LLJ m) = Some g \<Longrightarrow>
           tryToGenerate g (mangle (LLJ_DataLayout (LLJ m)) nm) = 0"
  shows "modern_findSymbol m nm =
           Inl (InternalAssert (''Unexpected failure in LLVM JIT: Symbols not found: '' @
                  mangle (LLJ_DataLayout (LLJ m)) nm))"
  using assms
  by (auto simp add: modern_findSymbol_def LLJIT_lookup_def assertSuccess_def Let_def
      formatError_def defaultErrorMsg_def split: option.splits)

lemma modern_new_lookup_fails:
  assumes new: "modern_new host rt = Inr m"
    and tab: "nm \<notin> set (enumerated (getSymbols rt))" and dp: "nm \<noteq> ''DispatchParallel''"
    and proc: "\<And>lib. currentProcess host = Inr lib \<Longrightarrow> map_of lib nm = None"
  shows "modern_findSymbol m nm =
           Inl (InternalAssert (''Unexpected failure in LLVM JIT: Symbols not found: '' @
                  mangle (LLJ_DataLayout (LLJ m)) nm))"
proof (rule modern_lookup_fails)
  have "mangle (LLJ_DataLayout (LLJ m)) nm \<notin> fst ` set (MainJITDylib (LLJ m))"
    using tab dp by (auto simp add: modern_new_dylib(1) [OF new])
  then show "map_of (MainJITDylib (LLJ m)) (mangle (LLJ_DataLayout (LLJ m)) nm) = None"
    by (simp add: map_of_eq_None_iff)
next
  fix g assume "MainGenerator (LLJ m) = Some g"
  with modern_new_dylib(2) [OF new] proc
  show "tryToGenerate g (mangle (LLJ_DataLayout (LLJ m)) nm) = 0"
    by (auto simp add: tryToGenerate_absent)
qed

lemma CompileLayer_findSymbol_null:
  "(\<forall>KV \<in> set layer. getSymbol (snd KV) nm b = NullSymbol) \<Longrightarrow>
   CompileLayer_findSymbol layer nm b = NullSymbol"
  by (induction layer) simp_all

text \<open>
  C2, as the code has it. In the implementation for LLVM 9 and later \<open>findSymbol\<close>
  fails with an internal assertion for every name that neither the main dylib (module
  definitions, intrinsics, \<open>DispatchParallel\<close>) nor the process resolves; on a freshly
  built engine these are the names outside the table, other than
  \<open>DispatchParallel\<close>, that the process does not have. In the implementation for the
  LLVM 8 snapshot \<open>findSymbol\<close> never fails: it returns what the compile layer finds
  among the added modules, which is the null symbol when no module exports the name,
  and so for every name when no module was added.
\<close>

theorem findSymbol_unresolved:
  "(map_of (MainJITDylib (LLJ m)) (mangle (LLJ_DataLayout (LLJ m)) nm) = None \<longrightarrow>
      (\<forall>g. MainGenerator (LLJ m) = Some g \<longrightarrow>
           tryToGenerate g (mangle (LLJ_DataLayout (LLJ m)) nm) = 0) \<longrightarrow>
      findSymbol (Modern m) nm =
        Inl (InternalAssert (''Unexpected failure in LLVM JIT: Symbols not found: '' @
               mangle (LLJ_DataLayout (LLJ m)) nm))) \<and>
   (modern_new host rt = Inr m' \<longrightarrow>
      nm \<notin> set (enumerated (getSymbols rt)) \<longrightarrow> nm \<noteq> ''DispatchParallel'' \<longrightarrow>
      (\<forall>lib. currentProcess host = Inr lib \<longrightarrow> map_of lib nm = None) \<longrightarrow>
      findSymbol (Modern m') nm =
        Inl (InternalAssert (''Unexpected failure in LLVM JIT: Symbols not found: '' @
               mangle (LLJ_DataLayout (LLJ m')) nm))) \<and>
   findSymbol (Legacy l) nm =
     Inr (CompileLayer_findSymbol (L_CompileLayer l) (mangle (L_DL l) nm) True, Legacy l) \<and>
   ((\<forall>KV \<in> set (L_CompileLayer l). getSymbol (snd KV) (mangle (L_DL l) nm) True = NullSymbol) \<longrightarrow>
      findSymbol (Legacy l) nm = Inr (NullSymbol, Legacy l))"
proof (intro conjI impI)
  assume "map_of (MainJITDylib (LLJ m)) (mangle (LLJ_DataLayout (LLJ m)) nm) = None"
    and "\<forall>g. MainGenerator (LLJ m) = Some g \<longrightarrow>
           tryToGenerate g (mangle (LLJ_DataLayout (LLJ m)) nm) = 0"
  then show "findSymbol (Modern m) nm =
        Inl (InternalAssert (''Unexpected failure in LLVM JIT: Symbols not found: '' @
               mangle (LLJ_DataLayout (LLJ m)) nm))"
    by (simp add: modern_lookup_fails)
next
  assume "modern_new host rt = Inr m'" "nm \<notin> set (enumerated (getSymbols rt))"
    "nm \<noteq> ''DispatchParallel''"
    "\<forall>lib. currentProcess host = Inr lib \<longrightarrow> map_of lib nm = None"
  then show "findSymbol (Modern m') nm =
        Inl (InternalAssert (''Unexpected failure in LLVM JIT: Symbols not found: '' @
               mangle (LLJ_DataLayout (LLJ m')) nm))"
    by (simp add: modern_new_lookup_fails)
next
  show "findSymbol (Legacy l) nm =
     Inr (CompileLayer_findSymbol (L_CompileLayer l) (mangle (L_DL l) nm) True, Legacy l)"
    by (simp add: legacy_findSymbol_def)
next
  assume "\<forall>KV \<in> set (L_CompileLayer l). getSymbol (snd KV) (mangle (L_DL l) nm) True = NullSymbol"
  then show "findSymbol (Legacy l) nm = Inr (NullSymbol, Legacy l)"
    by (simp add: legacy_findSymbol_def CompileLayer_findSymbol_null)
qed

theorem findSymbol_unresolved_witness:
  "modern_new example_host example_rt = Inr example_modern \<and>
   findSymbol (Modern example_modern) ''definitely_unknown_symbol_xyz'' =
     Inl (InternalAssert
       ''Unexpected failure in LLVM JIT: Symbols not found: definitely_unknown_symbol_xyz'') \<and>
   L_CompileLayer example_legacy = [] \<and>
   findSymbol (Legacy example_legacy) ''definitely_unknown_symbol_xyz'' =
     Inr (NullSymbol, Legacy example_legacy)"
proof -
  have a: "map_of (MainJITDylib (LLJ example_modern))
             (mangle (LLJ_DataLayout (LLJ example_modern)) ''definitely_unknown_symbol_xyz'') = None"
    by (simp add: example_modern_def mangle_def)
  have b: "\<forall>g. MainGenerator (LLJ example_modern) = Some g \<longrightarrow>
             tryToGenerate g
               (mangle (LLJ_DataLayout (LLJ example_modern)) ''definitely_unknown_symbol_xyz'') = 0"
    by (simp add: example_modern_def mangle_def tryToGenerate_def getAddressOfSymbol_def)
  have c: "''definitely_unknown_symbol_xyz'' \<notin> set (enumerated (getSymbols example_rt))"
    by (simp add: example_rt_def)
  have d: "\<forall>lib. currentProcess example_host = Inr lib \<longrightarrow>
             map_of lib ''definitely_unknown_symbol_xyz'' = None"
    by (simp add: example_host_def)
  have e: "L_CompileLayer example_legacy = []"
    by (simp add: example_legacy_def)
  have f: "mangle (LLJ_DataLayout (LLJ example_modern)) ''definitely_unknown_symbol_xyz'' =
             ''definitely_unknown_symbol_xyz''"
    by (simp add: example_modern_def mangle_def)
  from findSymbol_unresolved [of example_modern "''definitely_unknown_symbol_xyz''"
      example_host example_rt example_modern example_legacy]
    a b c d e f example_modern_new
  show ?thesis by simp
qed

text \<open>
  The engine of the LLVM 8 implementation, freshly built and with no module added,
  returns the null symbol for the unknown name; no assertion fails.
\<close>

theorem findSymbol_legacy_null_counterexample:
  "PytorchLLVMJITImpl_new 8 20181009 example_host example_rt =
     Some (Inr (Legacy example_legacy)) \<and>
   findSymbol (Legacy example_legacy) ''definitely_unknown_symbol_xyz'' =
     Inr (NullSymbol, Legacy example_legacy)"
  by (simp add: PytorchLLVMJITImpl_new_def example_legacy_new legacy_findSymbol_def)
     (simp add: example_legacy_def)

lemma resolve_Inr:
  "resolve J mn b = Inr (a, J') \<Longrightarrow> a = b \<and> J' = J"
  by (auto simp add: resolve_def split: option.splits)

lemma LLJIT_lookup_again:
  assumes "LLJIT_lookup J nm = Inr (a, J')"
  shows "LLJIT_lookup J' nm = Inr (a, J')"
proof (cases "map_of (MainJITDylib J) (mangle (LLJ_DataLayout J) nm)")
  case (Some b)
  with assms have r: "resolve J (mangle (LLJ_DataLayout J) nm) b = Inr (a, J')"
    by (simp add: LLJIT_lookup_def Let_def)
  from resolve_Inr [OF r] have "a = b" "J' = J" by simp_all
  with Some r show ?thesis
    by (simp add: LLJIT_lookup_def Let_def)
next
  case None
  let ?mn = "mangle (LLJ_DataLayout J) nm"
  from None assms obtain g where g: "MainGenerator J = Some g"
    by (cases "MainGenerator J") (simp_all add: LLJIT_lookup_def Let_def)
  let ?a = "tryToGenerate g ?mn"
  let ?J = "J\<lparr>MainJITDylib := MainJITDylib J @ [(?mn, ?a)]\<rparr>"
  from None g assms have r: "resolve ?J ?mn ?a = Inr (a, J')"
    by (cases "?a = 0") (simp_all add: LLJIT_lookup_def Let_def)
  from resolve_Inr [OF r] have e: "a = ?a" "J' = ?J" by simp_all
  have "map_of (MainJITDylib ?J) ?mn = Some ?a"
    using None by (simp add: map_add_def)
  with r e show ?thesis
    by (simp add: LLJIT_lookup_def Let_def)
qed

text \<open>
  C5. When \<open>findSymbol\<close> returns a symbol, calling it again for the same name on the
  engine it left behind returns the same symbol and leaves the engine as it is. (A
  first lookup of a process symbol enters it into the main dylib; the second finds it
  there, at the same address.)
\<close>

theorem findSymbol_idempotent:
  assumes "findSymbol e nm = Inr (s, e')"
  shows "findSymbol e' nm = Inr (s, e')"
proof (cases e)
  case (Modern m)
  with assms obtain a J where
    l: "LLJIT_lookup (LLJ m) nm = Inr (a, J)" and
    s: "s = Symbol a" and e': "e' = Modern (m\<lparr>LLJ := J\<rparr>)"
    by (auto simp add: map_sum_eq_Inr modern_findSymbol_def assertSuccess_def
        split: sum.splits prod.splits)
  from LLJIT_lookup_again [OF l] s e' show ?thesis
    by (simp add: modern_findSymbol_def assertSuccess_def)
next
  case (Legacy l)
  with assms show ?thesis by auto
qed

theorem findSymbol_idempotent_witness:
  "findSymbol (Modern example_modern) ''malloc'' =
     Inr (Symbol 0x3000,
          Modern (example_modern\<lparr>LLJ := (LLJ example_modern)
            \<lparr>MainJITDylib := MainJITDylib (LLJ example_modern) @ [(''malloc'', 0x3000)]\<rparr>\<rparr>)) \<and>
   findSymbol
     (Modern (example_modern\<lparr>LLJ := (LLJ example_modern)
            \<lparr>MainJITDylib := MainJITDylib (LLJ example_modern) @ [(''malloc'', 0x3000)]\<rparr>\<rparr>))
     ''malloc'' =
     Inr (Symbol 0x3000,
          Modern (example_modern\<lparr>LLJ := (LLJ example_modern)
            \<lparr>MainJITDylib := MainJITDylib (LLJ example_modern) @ [(''malloc'', 0x3000)]\<rparr>\<rparr>))"
proof -
  have first: "findSymbol (Modern example_modern) ''malloc'' =
     Inr (Symbol 0x3000,
          Modern (example_modern\<lparr>LLJ := (LLJ example_modern)
            \<lparr>MainJITDylib := MainJITDylib (LLJ example_modern) @ [(''malloc'', 0x3000)]\<rparr>\<rparr>))"
    by (simp add: example_modern_def modern_findSymbol_def assertSuccess_def LLJIT_lookup_def
        mangle_def tryToGenerate_def getAddressOfSymbol_def Let_def resolve_def)
  from first findSymbol_idempotent [OF first] show ?thesis by simp
qed

subsection \<open>Adding modules\<close>

















subsection \<open>Resolution order\<close>





subsection \<open>Removing modules\<close>

lemma legacy_addModule_key:
  "legacy_addModule l M = Inr l' \<Longrightarrow> map_of (L_CompileLayer l') (ES_LastKey l') \<noteq> None"
  by (auto simp add: legacy_addModule_def assertSuccess_def CompileLayer_addModule_def
      Let_def map_add_def split: sum.splits option.splits)

lemma legacy_removeModule_valid:
  "map_of (L_CompileLayer l) K \<noteq> None \<Longrightarrow>
   legacy_removeModule b l K =
     Inr (l\<lparr>L_CompileLayer := filter (\<lambda>KV. fst KV \<noteq> K) (L_CompileLayer l)\<rparr>)"
  by (auto simp add: legacy_removeModule_def CompileLayer_removeModule_def assertSuccessE_def)

lemma filter_absent_key:
  "map_of layer K = None \<Longrightarrow> filter (\<lambda>KV. fst KV \<noteq> K) layer = layer"
  by (induction layer) (auto split: if_splits)

lemma legacy_removeModule_absent:
  assumes "map_of (L_CompileLayer l) K = None"
  shows "legacy_removeModule False l K = Inr l"
    and "legacy_removeModule True l K =
           Inl (LibraryAssert ''VModuleKey not associated with object'')"
  using assms filter_absent_key [OF assms]
  by (simp_all add: legacy_removeModule_def CompileLayer_removeModule_def assertSuccessE_def)

text \<open>
  C8, as the code has it. In the implementation for the LLVM 8 snapshot,
  \<open>removeModule\<close> with the key of an added module erases that module from the compile
  layer, and when no other module exports the name, \<open>findSymbol\<close> then returns the
  null symbol for it and \<open>getSymbolAddress\<close> the null address: both return, neither
  fails. The key \<open>addModule\<close> allocated is such a key. With a key that has no module,
  \<open>removeModule\<close> returns and leaves the engine as it was when LLVM was built without
  assertions, and stops on the assertion of LLVM's linking layer when it was built with
  them. \<open>removeModule\<close> has no other failure: the error that it passes to
  \<open>assertSuccess\<close> is success in every case.
\<close>

theorem removeModule_erases:
  "(map_of (L_CompileLayer l) K \<noteq> None \<longrightarrow>
      (\<forall>KV \<in> set (L_CompileLayer l).
          fst KV \<noteq> K \<longrightarrow> getSymbol (snd KV) (mangle (L_DL l) nm) True = NullSymbol) \<longrightarrow>
      (\<exists>l'. legacy_removeModule LLVM_assertions l K = Inr l' \<and>
            l' = l\<lparr>L_CompileLayer := filter (\<lambda>KV. fst KV \<noteq> K) (L_CompileLayer l)\<rparr> \<and>
            findSymbol (Legacy l') nm = Inr (NullSymbol, Legacy l') \<and>
            legacy_getSymbolAddress l' nm = Inr 0)) \<and>
   (legacy_addModule l0 M = Inr l \<longrightarrow> map_of (L_CompileLayer l) (ES_LastKey l) \<noteq> None) \<and>
   (map_of (L_CompileLayer l) K = None \<longrightarrow>
      legacy_removeModule False l K = Inr l \<and>
      legacy_removeModule True l K =
        Inl (LibraryAssert ''VModuleKey not associated with object'')) \<and>
   (legacy_removeModule LLVM_assertions l K = Inl f \<longrightarrow>
      LLVM_assertions \<and> map_of (L_CompileLayer l) K = None \<and>
      f = LibraryAssert ''VModuleKey not associated with object'')"
proof (intro conjI impI)
  assume k: "map_of (L_CompileLayer l) K \<noteq> None"
    and o: "\<forall>KV \<in> set (L_CompileLayer l).
          fst KV \<noteq> K \<longrightarrow> getSymbol (snd KV) (mangle (L_DL l) nm) True = NullSymbol"
  let ?l' = "l\<lparr>L_CompileLayer := filter (\<lambda>KV. fst KV \<noteq> K) (L_CompileLayer l)\<rparr>"
  from o have "CompileLayer_findSymbol (filter (\<lambda>KV. fst KV \<noteq> K) (L_CompileLayer l))
      (mangle (L_DL l) nm) True = NullSymbol"
    by (intro CompileLayer_findSymbol_null) simp
  then have n: "legacy_findSymbol ?l' nm = NullSymbol"
    by (simp add: legacy_findSymbol_def)
  then have "findSymbol (Legacy ?l') nm = Inr (NullSymbol, Legacy ?l')"
    by simp
  moreover from n have "legacy_getSymbolAddress ?l' nm = Inr 0"
    by (simp add: legacy_getSymbolAddress_def getAddress_def assertSuccess_def)
  ultimately
  show "\<exists>l'. legacy_removeModule LLVM_assertions l K = Inr l' \<and>
            l' = l\<lparr>L_CompileLayer := filter (\<lambda>KV. fst KV \<noteq> K) (L_CompileLayer l)\<rparr> \<and>
            findSymbol (Legacy l') nm = Inr (NullSymbol, Legacy l') \<and>
            legacy_getSymbolAddress l' nm = Inr 0"
    using legacy_removeModule_valid [OF k, of LLVM_assertions] by simp
next
  assume "legacy_addModule l0 M = Inr l"
  then show "map_of (L_CompileLayer l) (ES_LastKey l) \<noteq> None"
    by (rule legacy_addModule_key)
next
  assume "map_of (L_CompileLayer l) K = None"
  then show "legacy_removeModule False l K = Inr l"
    by (rule legacy_removeModule_absent(1))
next
  assume "map_of (L_CompileLayer l) K = None"
  then show "legacy_removeModule True l K =
      Inl (LibraryAssert ''VModuleKey not associated with object'')"
    by (rule legacy_removeModule_absent(2))
next
  assume f: "legacy_removeModule LLVM_assertions l K = Inl f"
  then show "LLVM_assertions"
    by (auto simp add: legacy_removeModule_def CompileLayer_removeModule_def
        assertSuccessE_def split: if_splits)
  from f show "map_of (L_CompileLayer l) K = None"
    by (auto simp add: legacy_removeModule_def CompileLayer_removeModule_def
        assertSuccessE_def split: if_splits)
  from f show "f = LibraryAssert ''VModuleKey not associated with object''"
    by (auto simp add: legacy_removeModule_def CompileLayer_removeModule_def
        assertSuccessE_def split: if_splits)
qed

theorem removeModule_erases_witness:
  "legacy_addModule example_legacy module_foo = Inr example_legacy_foo \<and>
   findSymbol (Legacy example_legacy_foo) ''foo'' = Inr (Symbol 0x6000, Legacy example_legacy_foo) \<and>
   ES_LastKey example_legacy_foo = 1 \<and>
   map_of (L_CompileLayer example_legacy_foo) 1 \<noteq> None \<and>
   legacy_removeModule True example_legacy_foo 1 = Inr (example_legacy\<lparr>ES_LastKey := 1\<rparr>) \<and>
   findSymbol (Legacy (example_legacy\<lparr>ES_LastKey := 1\<rparr>)) ''foo'' =
     Inr (NullSymbol, Legacy (example_legacy\<lparr>ES_LastKey := 1\<rparr>)) \<and>
   legacy_getSymbolAddress (example_legacy\<lparr>ES_LastKey := 1\<rparr>) ''foo'' = Inr 0 \<and>
   map_of (L_CompileLayer example_legacy_foo) 7 = None \<and>
   legacy_removeModule False example_legacy_foo 7 = Inr example_legacy_foo \<and>
   legacy_removeModule True example_legacy_foo 7 =
     Inl (LibraryAssert ''VModuleKey not associated with object'') \<and>
   (True \<and> map_of (L_CompileLayer example_legacy_foo) 7 = None \<and>
    LibraryAssert ''VModuleKey not associated with object'' =
      LibraryAssert ''VModuleKey not associated with object'')"
proof -
  have add: "legacy_addModule example_legacy module_foo = Inr example_legacy_foo"
    by (simp add: legacy_addModule_def CompileLayer_addModule_def assertSuccess_def
        mangle_def module_foo_def example_legacy_def example_legacy_foo_def)
  have before: "findSymbol (Legacy example_legacy_foo) ''foo'' =
      Inr (Symbol 0x6000, Legacy example_legacy_foo)"
    by (simp add: legacy_findSymbol_def example_legacy_foo_def example_legacy_def
        mangle_def getSymbol_def)
  have key: "ES_LastKey example_legacy_foo = 1"
    by (simp add: example_legacy_foo_def)
  have others: "\<forall>KV \<in> set (L_CompileLayer example_legacy_foo).
      fst KV \<noteq> 1 \<longrightarrow>
      getSymbol (snd KV) (mangle (L_DL example_legacy_foo) ''foo'') True = NullSymbol"
    by (simp add: example_legacy_foo_def)
  have absent: "map_of (L_CompileLayer example_legacy_foo) 7 = None"
    by (simp add: example_legacy_foo_def)
  have rem: "example_legacy_foo
      \<lparr>L_CompileLayer := filter (\<lambda>KV. fst KV \<noteq> 1) (L_CompileLayer example_legacy_foo)\<rparr> =
      example_legacy\<lparr>ES_LastKey := 1\<rparr>"
    by (simp add: example_legacy_foo_def example_legacy_def)
  note t1 = removeModule_erases [where l = example_legacy_foo and K = 1 and nm = "''foo''"
      and ?l0.0 = example_legacy and M = module_foo and LLVM_assertions = True]
  note t7 = removeModule_erases [where l = example_legacy_foo and K = 7
      and LLVM_assertions = True
      and f = "LibraryAssert ''VModuleKey not associated with object''"]
  from t1 [THEN conjunct2, THEN conjunct1, THEN mp, OF add] key
  have valid: "map_of (L_CompileLayer example_legacy_foo) 1 \<noteq> None"
    by simp
  from t1 [THEN conjunct1, THEN mp, THEN mp, OF valid others] rem
  have r: "legacy_removeModule True example_legacy_foo 1 = Inr (example_legacy\<lparr>ES_LastKey := 1\<rparr>)"
    "findSymbol (Legacy (example_legacy\<lparr>ES_LastKey := 1\<rparr>)) ''foo'' =
       Inr (NullSymbol, Legacy (example_legacy\<lparr>ES_LastKey := 1\<rparr>))"
    "legacy_getSymbolAddress (example_legacy\<lparr>ES_LastKey := 1\<rparr>) ''foo'' = Inr 0"
    by auto
  note i = t7 [THEN conjunct2, THEN conjunct2, THEN conjunct1, THEN mp, OF absent]
  note j = t7 [THEN conjunct2, THEN conjunct2, THEN conjunct2, THEN mp, OF i [THEN conjunct2]]
  show ?thesis
    by (intro conjI)
       (rule add before key valid r absent i [THEN conjunct1] i [THEN conjunct2]
          j [THEN conjunct1] j [THEN conjunct2, THEN conjunct1]
          j [THEN conjunct2, THEN conjunct2])+
qed

text \<open>
  With an LLVM built without assertions, \<open>removeModule\<close> with a key that has no module
  returns and leaves the engine as it was; and after the only module that defines
  \<open>foo\<close> was removed, \<open>findSymbol\<close> for \<open>foo\<close> returns the null symbol.
\<close>

theorem removeModule_invalid_handle_counterexample:
  "map_of (L_CompileLayer example_legacy_foo) 7 = None \<and>
   legacy_removeModule False example_legacy_foo 7 = Inr example_legacy_foo \<and>
   legacy_removeModule False example_legacy_foo 1 = Inr (example_legacy\<lparr>ES_LastKey := 1\<rparr>) \<and>
   findSymbol (Legacy (example_legacy\<lparr>ES_LastKey := 1\<rparr>)) ''foo'' =
     Inr (NullSymbol, Legacy (example_legacy\<lparr>ES_LastKey := 1\<rparr>))"
  by (simp add: legacy_removeModule_def CompileLayer_removeModule_def assertSuccessE_def
      example_legacy_foo_def example_legacy_def legacy_findSymbol_def)

subsection \<open>The facade\<close>

lemma deref_Inr: "deref h p = Inr v \<longleftrightarrow> p < length h \<and> h ! p = Some v"
  by (auto simp add: deref_def split: option.splits)

lemma deref_update: "p < length h \<Longrightarrow> deref (h[p := Some v]) p = Inr v"
  by (simp add: deref_def)

lemma call_facade_refines:
  assumes "deref h (impl this) = Inr v"
  shows "call_facade c this h =
           map_sum id (\<lambda>r. (fst r, h[impl this := Some (snd r)])) (call_impl c v)"
proof -
  from assms have p: "impl this < length h" and v: "h ! impl this = Some v"
    by (simp_all add: deref_Inr)
  from p v have same: "h[impl this := Some v] = h"
    by (metis list_update_id)
  show ?thesis
  proof (cases c)
    case (AddModule M)
    with assms show ?thesis
      by (simp add: PytorchLLVMJIT_addModule_def split: sum.splits)
  next
    case (FindSymbol Name)
    with assms show ?thesis
      by (simp add: PytorchLLVMJIT_findSymbol_def split: sum.splits prod.splits)
  next
    case (HasSymbol Name)
    with assms same show ?thesis
      by (simp add: PytorchLLVMJIT_hasSymbol_def)
  next
    case GetTargetMachine
    with assms same show ?thesis
      by (simp add: PytorchLLVMJIT_getTargetMachine_def)
  next
    case GetDataLayout
    with assms same show ?thesis
      by (simp add: PytorchLLVMJIT_getDataLayout_def)
  qed
qed

lemma run_facade_refines:
  "deref h (impl this) = Inr v \<Longrightarrow>
   run_facade cs this h =
     map_sum id (\<lambda>r. (fst r, h[impl this := Some (snd r)])) (run_impl cs v)"
proof (induction cs arbitrary: h v)
  case Nil
  then have "h[impl this := Some v] = h"
    by (metis deref_Inr list_update_id)
  then show ?case by simp
next
  case (Cons c cs)
  from Cons.prems have p: "impl this < length h"
    by (simp add: deref_Inr)
  note c = call_facade_refines [OF Cons.prems, of c]
  show ?case
  proof (cases "call_impl c v")
    case (Inl f)
    with c show ?thesis by simp
  next
    case (Inr rv)
    obtain r v' where rv: "rv = (r, v')" by (cases rv)
    from p have d: "deref (h[impl this := Some v']) (impl this) = Inr v'"
      by (rule deref_update)
    from Cons.IH [OF d]
    have "run_facade cs this (h[impl this := Some v']) =
        map_sum id (\<lambda>r. (fst r, h[impl this := Some (snd r)])) (run_impl cs v')"
      by (simp only: list_update_overwrite)
    with c Inr rv show ?thesis
      by (cases "run_impl cs v'") (simp_all split: prod.splits)
  qed
qed

lemma PytorchLLVMJIT_destroy_owned:
  "deref h (impl this) = Inr v \<Longrightarrow> PytorchLLVMJIT_destroy this h = Inr (h[impl this := None])"
  by (simp add: PytorchLLVMJIT_destroy_def delete_def)

text \<open>
  C7. The constructor of the facade calls the constructor of the implementation once;
  when that returns an implementation, it is put into one new cell of the heap, which
  the facade points to, and every cell that existed is as it was; when it fails, the
  failure is the facade's and the heap is as it was. While the facade points to an
  implementation, each of the five operations called on the facade returns what the
  same operation returns on that implementation, with the same failures, and leaves
  that implementation's new state in the facade's cell and every other cell as it was;
  so does every sequence of the five operations. The destructor of the facade destroys
  the implementation in the facade's cell and no other. So a facade that was
  constructed, used and destroyed leaves the heap as it found it, with one cell more,
  which held its one implementation and is empty.
\<close>

theorem facade_refines_implementation:
  "PytorchLLVMJIT_new major patch host rt h =
     map_option (map_sum id (\<lambda>v. (\<lparr>impl = length h\<rparr>, h @ [Some v])))
       (PytorchLLVMJITImpl_new major patch host rt) \<and>
   (deref h (impl this) = Inr v \<longrightarrow>
      call_facade c this h =
        map_sum id (\<lambda>r. (fst r, h[impl this := Some (snd r)])) (call_impl c v) \<and>
      run_facade cs this h =
        map_sum id (\<lambda>r. (fst r, h[impl this := Some (snd r)])) (run_impl cs v) \<and>
      PytorchLLVMJIT_destroy this h = Inr (h[impl this := None])) \<and>
   (PytorchLLVMJITImpl_new major patch host rt = Some (Inr v0) \<longrightarrow>
      run_impl cs v0 = Inr (rs, v1) \<longrightarrow>
      PytorchLLVMJIT_new major patch host rt h =
        Some (Inr (\<lparr>impl = length h\<rparr>, h @ [Some v0])) \<and>
      run_facade cs \<lparr>impl = length h\<rparr> (h @ [Some v0]) = Inr (rs, h @ [Some v1]) \<and>
      PytorchLLVMJIT_destroy \<lparr>impl = length h\<rparr> (h @ [Some v1]) = Inr (h @ [None]))"
proof (intro conjI impI)
  show new: "PytorchLLVMJIT_new major patch host rt h =
     map_option (map_sum id (\<lambda>v. (\<lparr>impl = length h\<rparr>, h @ [Some v])))
       (PytorchLLVMJITImpl_new major patch host rt)"
    by (simp add: PytorchLLVMJIT_new_def make_unique_def split: option.splits sum.splits)
  {
    assume d: "deref h (impl this) = Inr v"
    from d show "call_facade c this h =
        map_sum id (\<lambda>r. (fst r, h[impl this := Some (snd r)])) (call_impl c v)"
      by (rule call_facade_refines)
    from d show "run_facade cs this h =
        map_sum id (\<lambda>r. (fst r, h[impl this := Some (snd r)])) (run_impl cs v)"
      by (rule run_facade_refines)
    from d show "PytorchLLVMJIT_destroy this h = Inr (h[impl this := None])"
      by (rule PytorchLLVMJIT_destroy_owned)
  }
  {
    assume n: "PytorchLLVMJITImpl_new major patch host rt = Some (Inr v0)"
      and r: "run_impl cs v0 = Inr (rs, v1)"
    let ?f = "\<lparr>impl = length h\<rparr>"
    from n new show "PytorchLLVMJIT_new major patch host rt h =
        Some (Inr (\<lparr>impl = length h\<rparr>, h @ [Some v0]))"
      by simp
    have d0: "deref (h @ [Some v0]) (impl ?f) = Inr v0"
      by (simp add: deref_def)
    from run_facade_refines [OF d0, of cs] r
    show "run_facade cs ?f (h @ [Some v0]) = Inr (rs, h @ [Some v1])"
      by simp
    have d1: "deref (h @ [Some v1]) (impl ?f) = Inr v1"
      by (simp add: deref_def)
    from PytorchLLVMJIT_destroy_owned [OF d1]
    show "PytorchLLVMJIT_destroy ?f (h @ [Some v1]) = Inr (h @ [None])"
      by simp
  }
qed

theorem facade_refines_implementation_witness:
  "PytorchLLVMJITImpl_new 9 0 example_host example_rt = Some (Inr (Modern example_modern)) \<and>
   run_impl [HasSymbol ''log10f'', AddModule module_foo, FindSymbol ''foo'', GetDataLayout]
       (Modern example_modern) =
     Inr ([Has True, Added, Found (Symbol 0x6000), Layout \<lparr>GlobalPrefix = None\<rparr>],
          Modern example_modern_foo) \<and>
   PytorchLLVMJIT_new 9 0 example_host example_rt [None] =
     Some (Inr (\<lparr>impl = 1\<rparr>, [None, Some (Modern example_modern)])) \<and>
   deref [None, Some (Modern example_modern)] (impl \<lparr>impl = 1\<rparr>) = Inr (Modern example_modern) \<and>
   call_facade (HasSymbol ''log10f'') \<lparr>impl = 1\<rparr> [None, Some (Modern example_modern)] =
     Inr (Has True, [None, Some (Modern example_modern)]) \<and>
   run_facade [HasSymbol ''log10f'', AddModule module_foo, FindSymbol ''foo'', GetDataLayout]
       \<lparr>impl = 1\<rparr> [None, Some (Modern example_modern)] =
     Inr ([Has True, Added, Found (Symbol 0x6000), Layout \<lparr>GlobalPrefix = None\<rparr>],
          [None, Some (Modern example_modern_foo)]) \<and>
   PytorchLLVMJIT_destroy \<lparr>impl = 1\<rparr> [None, Some (Modern example_modern_foo)] =
     Inr [None, None]"
proof -
  let ?cs = "[HasSymbol ''log10f'', AddModule module_foo, FindSymbol ''foo'', GetDataLayout]"
  let ?rs = "[Has True, Added, Found (Symbol 0x6000), Layout \<lparr>GlobalPrefix = None\<rparr>]"
  have n: "PytorchLLVMJITImpl_new 9 0 example_host example_rt =
      Some (Inr (Modern example_modern))"
    by (simp add: PytorchLLVMJITImpl_new_def example_modern_new)
  have has: "modern_hasSymbol example_modern ''log10f''"
    by (simp add: modern_hasSymbol_def example_modern_def)
  have add: "modern_addModule example_modern module_foo = Inr example_modern_foo"
    by (simp add: modern_addModule_def addIRModule_def assertSuccess_def JD_define_def
        exportedSymbols_def mangle_def module_foo_def example_modern_def
        example_modern_foo_def materialization_def)
  have find: "modern_findSymbol example_modern_foo ''foo'' =
      Inr (Symbol 0x6000, example_modern_foo)"
    by (simp add: example_modern_foo_def example_modern_def modern_findSymbol_def
        assertSuccess_def LLJIT_lookup_def mangle_def Let_def resolve_def)
  have dl: "modern_getDataLayout example_modern_foo = \<lparr>GlobalPrefix = None\<rparr>"
    by (simp add: modern_getDataLayout_def example_modern_foo_def example_modern_def
        example_tm_def createDataLayout_def)
  have r: "run_impl ?cs (Modern example_modern) = Inr (?rs, Modern example_modern_foo)"
    by (simp add: has add find dl)
  have d: "deref [None, Some (Modern example_modern)] (impl \<lparr>impl = 1\<rparr>) =
      Inr (Modern example_modern)"
    by (simp add: deref_def)
  note life = facade_refines_implementation [where major = 9 and patch = 0
      and host = example_host and rt = example_rt and h = "[None]"
      and ?v0.0 = "Modern example_modern" and cs = ?cs and rs = ?rs
      and ?v1.0 = "Modern example_modern_foo",
      THEN conjunct2, THEN conjunct2, THEN mp, THEN mp, OF n r]
  note use = facade_refines_implementation [where h = "[None, Some (Modern example_modern)]"
      and this = "\<lparr>impl = 1\<rparr>" and v = "Modern example_modern"
      and c = "HasSymbol ''log10f''",
      THEN conjunct2, THEN conjunct1, THEN mp, OF d]
  from life have l1: "PytorchLLVMJIT_new 9 0 example_host example_rt [None] =
     Some (Inr (\<lparr>impl = 1\<rparr>, [None, Some (Modern example_modern)]))"
    and l2: "run_facade ?cs \<lparr>impl = 1\<rparr> [None, Some (Modern example_modern)] =
      Inr (?rs, [None, Some (Modern example_modern_foo)])"
    and l3: "PytorchLLVMJIT_destroy \<lparr>impl = 1\<rparr> [None, Some (Modern example_modern_foo)] =
      Inr [None, None]"
    by simp_all
  from use [THEN conjunct1] has
  have u1: "call_facade (HasSymbol ''log10f'') \<lparr>impl = 1\<rparr> [None, Some (Modern example_modern)] =
     Inr (Has True, [None, Some (Modern example_modern)])"
    by simp
  show ?thesis
    by (intro conjI) (rule n r l1 d u1 l2 l3)+
qed

section \<open>Properties of the conjugate fallback\<close>

subsection \<open>The alias check\<close>

lemma is_write_loop_Some:
  "is_write_loop nm args (Some b) = Inr r \<Longrightarrow>
   r = Some b \<and> (\<forall>a \<in> set args. \<forall>x. alias_info a = Some x \<longrightarrow> isWrite x = b)"
proof (induction args)
  case Nil
  then show ?case by simp
next
  case (Cons a args)
  have step: "is_write_loop nm args (Some b) = Inr r \<and>
      (\<forall>x. alias_info a = Some x \<longrightarrow> isWrite x = b)"
  proof (cases "alias_info a")
    case None
    with Cons.prems show ?thesis by simp
  next
    case (Some x)
    with Cons.prems show ?thesis
      by (cases "b = isWrite x") simp_all
  qed
  then have "is_write_loop nm args (Some b) = Inr r" ..
  from Cons.IH [OF this]
  have r: "r = Some b"
    and rest: "\<And>c z. c \<in> set args \<Longrightarrow> alias_info c = Some z \<Longrightarrow> isWrite z = b"
    by blast+
  show ?case
  proof (intro conjI ballI allI impI)
    show "r = Some b" by (rule r)
  next
    fix c z assume c: "c \<in> set (a # args)" and z: "alias_info c = Some z"
    show "isWrite z = b"
    proof (cases "c = a")
      case True
      with step z show ?thesis by blast
    next
      case False
      with c have "c \<in> set args" by simp
      then show ?thesis using z by (rule rest)
    qed
  qed
qed

lemma is_write_loop_None:
  "is_write_loop nm args None = Inr r \<Longrightarrow>
   (\<forall>a \<in> set args. \<forall>x. alias_info a = Some x \<longrightarrow> r = Some (isWrite x))"
proof (induction args)
  case Nil
  then show ?case by simp
next
  case (Cons a args)
  show ?case
  proof (cases "alias_info a")
    case None
    with Cons show ?thesis by simp
  next
    case (Some x)
    with Cons.prems have "is_write_loop nm args (Some (isWrite x)) = Inr r" by simp
    from is_write_loop_Some [OF this]
    have r: "r = Some (isWrite x)"
      and rest: "\<And>c z. c \<in> set args \<Longrightarrow> alias_info c = Some z \<Longrightarrow> isWrite z = isWrite x"
      by blast+
    show ?thesis
    proof (intro ballI allI impI)
      fix c z assume c: "c \<in> set (a # args)" and z: "alias_info c = Some z"
      show "r = Some (isWrite z)"
      proof (cases "c = a")
        case True
        with z Some r show ?thesis by simp
      next
        case False
        with c have "c \<in> set args" by simp
        from rest [OF this z] r show ?thesis by simp
      qed
    qed
  qed
qed

lemma is_write_loop_Inl:
  "is_write_loop nm args w = Inl f \<Longrightarrow> f = Check (mixMessage nm)"
proof (induction args arbitrary: w)
  case Nil
  then show ?case by simp
next
  case (Cons a args)
  show ?case
  proof (cases "alias_info a")
    case None
    with Cons.prems have "is_write_loop nm args w = Inl f" by simp
    then show ?thesis by (rule Cons.IH)
  next
    case (Some x)
    show ?thesis
    proof (cases w)
      case None
      with Cons.prems Some have "is_write_loop nm args (Some (isWrite x)) = Inl f" by simp
      then show ?thesis by (rule Cons.IH)
    next
      case (Some b)
      show ?thesis
      proof (cases "b = isWrite x")
        case True
        with Cons.prems \<open>alias_info a = Some x\<close> Some
        have "is_write_loop nm args w = Inl f" by simp
        then show ?thesis by (rule Cons.IH)
      next
        case False
        with Cons.prems \<open>alias_info a = Some x\<close> Some show ?thesis by simp
      qed
    qed
  qed
qed



subsection \<open>The tensors before and after the redispatch\<close>

lemma length_conj_physical_inplace [simp]:
  "length (conj_physical_inplace t ts) = length ts"
  by (simp add: conj_physical_inplace_def)

lemma length_set_conj [simp]: "length (set_conj t b ts) = length ts"
  by (simp add: set_conj_def)

lemma flip_same:
  "t < length ts \<Longrightarrow>
   is_conj (set_conj t b (conj_physical_inplace t ts) ! t) = b \<and>
   storage (set_conj t b (conj_physical_inplace t ts) ! t) = map cnj (storage (ts ! t))"
  by (simp add: set_conj_def conj_physical_inplace_def)

lemma flip_other:
  "u \<noteq> t \<Longrightarrow> set_conj t b (conj_physical_inplace t ts) ! u = ts ! u"
  by (simp add: set_conj_def conj_physical_inplace_def)

lemma resolve_conj_keeps:
  assumes "resolve_conj t ts = (t', ts')"
  shows "length ts \<le> length ts'"
    and "\<And>u. u < length ts \<Longrightarrow> ts' ! u = ts ! u"
    and "\<And>u. length ts \<le> u \<Longrightarrow> u < length ts' \<Longrightarrow> \<not> is_conj (ts' ! u)"
proof -
  show "length ts \<le> length ts'"
    using assms by (auto simp add: resolve_conj_def split: if_splits)
  show "ts' ! u = ts ! u" if "u < length ts" for u
    using assms that by (auto simp add: resolve_conj_def nth_append split: if_splits)
  show "\<not> is_conj (ts' ! u)" if "length ts \<le> u" "u < length ts'" for u
  proof (cases "is_conj (ts ! t)")
    case True
    with assms have ts': "ts' = ts @ [\<lparr>is_conj = False, storage = map cnj (storage (ts ! t))\<rparr>]"
      by (simp add: resolve_conj_def)
    with that have "u = length ts" by simp
    with ts' show ?thesis by simp
  next
    case False
    with assms have "ts' = ts" by (simp add: resolve_conj_def)
    with that show ?thesis by simp
  qed
qed

lemma prepared_refl: "prepared ts [] ts"
  by (auto simp add: prepared_def)

lemma prepared_single:
  assumes "t < length ts" "is_conj (ts ! t)"
  shows "prepared ts [t] (set_conj t False (conj_physical_inplace t ts))"
proof -
  let ?ts' = "set_conj t False (conj_physical_inplace t ts)"
  from flip_same [OF assms(1), of False] assms
  have c3: "\<forall>u \<in> set [t]. u < length ts \<and> is_conj (ts ! u) \<and> \<not> is_conj (?ts' ! u) \<and>
        storage (?ts' ! u) = map cnj (storage (ts ! u))"
    by simp
  have c4: "\<forall>u < length ts. u \<notin> set [t] \<longrightarrow> ?ts' ! u = ts ! u"
    by (simp add: flip_other)
  have c5: "\<forall>u. length ts \<le> u \<and> u < length ?ts' \<longrightarrow> \<not> is_conj (?ts' ! u)"
    by auto
  have c1: "length ts \<le> length ?ts'" and c2: "distinct [t]"
    by simp_all
  show ?thesis
    unfolding prepared_def by (intro conjI) (rule c1 c2 c3 c4 c5)+
qed

lemma prepared_resolve:
  assumes "resolve_conj t ts = (t', ts')"
  shows "prepared ts [] ts'"
  using resolve_conj_keeps [OF assms] by (auto simp add: prepared_def)

lemma prepared_trans:
  assumes p: "prepared ts n1 ts'" and q: "prepared ts' n2 ts''"
  shows "prepared ts (n1 @ n2) ts''"
proof -
  from p have p1: "length ts \<le> length ts'" and p2: "distinct n1"
    and p3: "\<And>t. t \<in> set n1 \<Longrightarrow> t < length ts \<and> is_conj (ts ! t) \<and> \<not> is_conj (ts' ! t) \<and>
        storage (ts' ! t) = map cnj (storage (ts ! t))"
    and p4: "\<And>t. t < length ts \<Longrightarrow> t \<notin> set n1 \<Longrightarrow> ts' ! t = ts ! t"
    and p5: "\<And>t. length ts \<le> t \<Longrightarrow> t < length ts' \<Longrightarrow> \<not> is_conj (ts' ! t)"
    unfolding prepared_def by blast+
  from q have q1: "length ts' \<le> length ts''" and q2: "distinct n2"
    and q3: "\<And>t. t \<in> set n2 \<Longrightarrow> t < length ts' \<and> is_conj (ts' ! t) \<and> \<not> is_conj (ts'' ! t) \<and>
        storage (ts'' ! t) = map cnj (storage (ts' ! t))"
    and q4: "\<And>t. t < length ts' \<Longrightarrow> t \<notin> set n2 \<Longrightarrow> ts'' ! t = ts' ! t"
    and q5: "\<And>t. length ts' \<le> t \<Longrightarrow> t < length ts'' \<Longrightarrow> \<not> is_conj (ts'' ! t)"
    unfolding prepared_def by blast+
  have disj: "set n1 \<inter> set n2 = {}"
    using p3 q3 by blast
  have n2_old: "t < length ts \<and> t \<notin> set n1" if "t \<in> set n2" for t
  proof -
    from q3 [OF that] have a: "t < length ts'" "is_conj (ts' ! t)" by simp_all
    have "t < length ts"
    proof (rule ccontr)
      assume "\<not> t < length ts"
      then have "length ts \<le> t" by simp
      from p5 [OF this a(1)] a(2) show False by simp
    qed
    moreover from that disj have "t \<notin> set n1" by blast
    ultimately show ?thesis by simp
  qed
  have c1: "length ts \<le> length ts''" using p1 q1 by simp
  have c2: "distinct (n1 @ n2)" using p2 q2 disj by simp
  have c3: "\<forall>t \<in> set (n1 @ n2). t < length ts \<and> is_conj (ts ! t) \<and> \<not> is_conj (ts'' ! t) \<and>
        storage (ts'' ! t) = map cnj (storage (ts ! t))"
  proof
    fix t assume "t \<in> set (n1 @ n2)"
    then consider "t \<in> set n1" | "t \<in> set n2" by auto
    then show "t < length ts \<and> is_conj (ts ! t) \<and> \<not> is_conj (ts'' ! t) \<and>
        storage (ts'' ! t) = map cnj (storage (ts ! t))"
    proof cases
      case 1
      from p3 [OF 1] have a: "t < length ts" "is_conj (ts ! t)" "\<not> is_conj (ts' ! t)"
        "storage (ts' ! t) = map cnj (storage (ts ! t))" by simp_all
      from 1 disj have "t \<notin> set n2" by blast
      moreover from a(1) p1 have "t < length ts'" by simp
      ultimately have "ts'' ! t = ts' ! t" using q4 by simp
      with a show ?thesis by simp
    next
      case 2
      from q3 [OF 2] have a: "is_conj (ts' ! t)" "\<not> is_conj (ts'' ! t)"
        "storage (ts'' ! t) = map cnj (storage (ts' ! t))" by simp_all
      from n2_old [OF 2] have b: "t < length ts" "t \<notin> set n1" by simp_all
      from p4 [OF b] have "ts' ! t = ts ! t" .
      with a b show ?thesis by simp
    qed
  qed
  have c4: "\<forall>t < length ts. t \<notin> set (n1 @ n2) \<longrightarrow> ts'' ! t = ts ! t"
  proof (intro allI impI)
    fix t assume a: "t < length ts" "t \<notin> set (n1 @ n2)"
    then have "ts' ! t = ts ! t" using p4 by simp
    moreover from a p1 have "ts'' ! t = ts' ! t" using q4 by simp
    ultimately show "ts'' ! t = ts ! t" by simp
  qed
  have c5: "\<forall>t. length ts \<le> t \<and> t < length ts'' \<longrightarrow> \<not> is_conj (ts'' ! t)"
  proof (intro allI impI)
    fix t assume a: "length ts \<le> t \<and> t < length ts''"
    show "\<not> is_conj (ts'' ! t)"
    proof (cases "t < length ts'")
      case True
      with a p5 have c: "\<not> is_conj (ts' ! t)" by simp
      have "t \<notin> set n2"
      proof
        assume "t \<in> set n2"
        from q3 [OF this] c show False by simp
      qed
      with True q4 have "ts'' ! t = ts' ! t" by simp
      with c show ?thesis by simp
    next
      case False
      with a q5 show ?thesis by simp
    qed
  qed
  show ?thesis
    unfolding prepared_def by (intro conjI) (rule c1 c2 c3 c4 c5)+
qed


lemma materialize_body_None:
  assumes "materialize_body a k (w, mi) = (None, w', mi')"
  shows "\<exists>new. mi' = mi @ new \<and> prepared (tensors w) new (tensors w') \<and>
           (\<forall>j. j \<noteq> k \<longrightarrow> stack w' ! j = stack w ! j) \<and>
           (\<forall>t. stack w ! k = Tensor t \<and> alias_info a \<noteq> None \<and> t < length (tensors w) \<and>
                is_conj (tensors w ! t) \<longrightarrow> t \<in> set new)"
proof -
  have same: ?thesis if "w' = w" "mi' = mi"
    "\<And>t. stack w ! k = Tensor t \<Longrightarrow> alias_info a \<noteq> None \<Longrightarrow> t < length (tensors w) \<Longrightarrow>
       \<not> is_conj (tensors w ! t)"
  proof (intro exI [of _ "[]"] conjI)
    show "mi' = mi @ []" using that by simp
    show "prepared (tensors w) [] (tensors w')" using that by (simp add: prepared_refl)
    show "\<forall>j. j \<noteq> k \<longrightarrow> stack w' ! j = stack w ! j" using that by simp
    show "\<forall>t. stack w ! k = Tensor t \<and> alias_info a \<noteq> None \<and> t < length (tensors w) \<and>
                is_conj (tensors w ! t) \<longrightarrow> t \<in> set []"
      using that(3) by blast
  qed
  from assms have k: "k < length (stack w)"
    by (cases "k < length (stack w)") (simp_all add: materialize_body_def)
  show ?thesis
  proof (cases "stack w ! k")
    case (Int n)
    with assms k have "w' = w" "mi' = mi" by (simp_all add: materialize_body_def)
    then show ?thesis using Int by (intro same) simp_all
  next
    case NoneValue
    with assms k have "w' = w" "mi' = mi" by (simp_all add: materialize_body_def)
    then show ?thesis using NoneValue by (intro same) simp_all
  next
    case (Tensor t)
    let ?bad = "case alias_info a of None \<Rightarrow> False | Some ai \<Rightarrow> \<not> isWrite ai"
    from assms k Tensor have chk: "\<not> ?bad"
      by (cases ?bad) (simp_all add: materialize_body_def)
    from assms k Tensor chk have t: "t < length (tensors w)"
      by (cases "t < length (tensors w)") (simp_all add: materialize_body_def Let_def)
    show ?thesis
    proof (cases "is_conj (tensors w ! t)")
      case False
      with assms k Tensor chk t have "w' = w" "mi' = mi"
        by (simp_all add: materialize_body_def Let_def)
      then show ?thesis using Tensor False by (intro same) simp_all
    next
      case True
      show ?thesis
      proof (cases "alias_info a")
        case None
        obtain t' ts where r: "resolve_conj t (tensors w) = (t', ts)"
          by (cases "resolve_conj t (tensors w)")
        with assms k Tensor chk t True None
        have w': "w' = w\<lparr>tensors := ts, stack := (stack w)[k := Tensor t']\<rparr>" and "mi' = mi"
          by (simp_all add: materialize_body_def Let_def)
        show ?thesis
        proof (intro exI [of _ "[]"] conjI)
          show "mi' = mi @ []" using \<open>mi' = mi\<close> by simp
          show "prepared (tensors w) [] (tensors w')"
            using prepared_resolve [OF r] w' by simp
          show "\<forall>j. j \<noteq> k \<longrightarrow> stack w' ! j = stack w ! j" using w' by simp
          show "\<forall>t. stack w ! k = Tensor t \<and> alias_info a \<noteq> None \<and> t < length (tensors w) \<and>
                is_conj (tensors w ! t) \<longrightarrow> t \<in> set []"
            using None by simp
        qed
      next
        case (Some ai)
        with assms k Tensor chk t True
        have w': "w' = w\<lparr>tensors := set_conj t False (conj_physical_inplace t (tensors w)),
                          stack := (stack w)[k := Tensor t]\<rparr>"
          and mi': "mi' = mi @ [t]"
          by (simp_all add: materialize_body_def Let_def)
        show ?thesis
        proof (intro exI [of _ "[t]"] conjI)
          show "mi' = mi @ [t]" by (rule mi')
          show "prepared (tensors w) [t] (tensors w')"
            using prepared_single [OF t True] w' by simp
          show "\<forall>j. j \<noteq> k \<longrightarrow> stack w' ! j = stack w ! j" using w' by simp
          show "\<forall>u. stack w ! k = Tensor u \<and> alias_info a \<noteq> None \<and> u < length (tensors w) \<and>
                is_conj (tensors w ! u) \<longrightarrow> u \<in> set [t]"
            using Tensor by simp
        qed
      qed
    qed
  qed
qed

lemma materialize_loop_None:
  "materialize_loop args k (w, mi) = (None, w1, mi1) \<Longrightarrow>
   \<exists>new. mi1 = mi @ new \<and> prepared (tensors w) new (tensors w1) \<and>
     (\<forall>j < length args. \<forall>t. stack w ! (k + j) = Tensor t \<and> alias_info (args ! j) \<noteq> None \<and>
          t < length (tensors w) \<and> is_conj (tensors w ! t) \<longrightarrow> t \<in> set new)"
proof (induction args arbitrary: k w mi)
  case Nil
  then have "w1 = w" "mi1 = mi" by simp_all
  then show ?case by (simp add: prepared_refl)
next
  case (Cons a rest)
  obtain r wa ma where body: "materialize_body a k (w, mi) = (r, wa, ma)"
    by (cases "materialize_body a k (w, mi)")
  with Cons.prems have r: "r = None"
    and loop: "materialize_loop rest (k + 1) (wa, ma) = (None, w1, mi1)"
    by (cases r; simp)+
  from materialize_body_None [OF body [unfolded r]] obtain na where
    na: "ma = mi @ na" and pa: "prepared (tensors w) na (tensors wa)"
    and sa: "\<And>j. j \<noteq> k \<Longrightarrow> stack wa ! j = stack w ! j"
    and ea: "\<And>t. stack w ! k = Tensor t \<Longrightarrow> alias_info a \<noteq> None \<Longrightarrow> t < length (tensors w)
               \<Longrightarrow> is_conj (tensors w ! t) \<Longrightarrow> t \<in> set na"
    by blast
  from Cons.IH [OF loop] obtain nr where
    nr: "mi1 = ma @ nr" and pr: "prepared (tensors wa) nr (tensors w1)"
    and er: "\<And>j t. j < length rest \<Longrightarrow> stack wa ! (k + 1 + j) = Tensor t \<Longrightarrow>
               alias_info (rest ! j) \<noteq> None \<Longrightarrow> t < length (tensors wa) \<Longrightarrow>
               is_conj (tensors wa ! t) \<Longrightarrow> t \<in> set nr"
    by blast
  from pa have len: "length (tensors w) \<le> length (tensors wa)"
    and keep: "\<And>t. t < length (tensors w) \<Longrightarrow> t \<notin> set na \<Longrightarrow> tensors wa ! t = tensors w ! t"
    unfolding prepared_def by blast+
  have e: "t \<in> set (na @ nr)"
    if j: "j < length (a # rest)" and s: "stack w ! (k + j) = Tensor t"
      and al: "alias_info ((a # rest) ! j) \<noteq> None"
      and t: "t < length (tensors w)" and c: "is_conj (tensors w ! t)" for j t
  proof (cases j)
    case 0
    with s al have "stack w ! k = Tensor t" "alias_info a \<noteq> None" by simp_all
    from ea [OF this t c] show ?thesis by simp
  next
    case (Suc j')
    show ?thesis
    proof (cases "t \<in> set na")
      case True
      then show ?thesis by simp
    next
      case False
      from keep [OF t False] c have c': "is_conj (tensors wa ! t)" by simp
      from t len have t': "t < length (tensors wa)" by simp
      from Suc j have j': "j' < length rest" by simp
      from Suc al have al': "alias_info (rest ! j') \<noteq> None" by simp
      have "k + 1 + j' \<noteq> k" by simp
      from sa [OF this] s Suc have s': "stack wa ! (k + 1 + j') = Tensor t" by simp
      from er [OF j' s' al' t' c'] show ?thesis by simp
    qed
  qed
  show ?case
  proof (intro exI [of _ "na @ nr"] conjI)
    show "mi1 = mi @ na @ nr" using na nr by simp
    show "prepared (tensors w) (na @ nr) (tensors w1)"
      using pa pr by (rule prepared_trans)
    show "\<forall>j < length (a # rest). \<forall>t. stack w ! (k + j) = Tensor t \<and>
            alias_info ((a # rest) ! j) \<noteq> None \<and>
            t < length (tensors w) \<and> is_conj (tensors w ! t) \<longrightarrow> t \<in> set (na @ nr)"
      using e by blast
  qed
qed

lemma restore_loop_None:
  "restore_loop mi w = (None, w') \<Longrightarrow> distinct mi \<Longrightarrow>
   length (tensors w') = length (tensors w) \<and>
   (\<forall>t \<in> set mi. t < length (tensors w) \<and> is_conj (tensors w' ! t) \<and>
       storage (tensors w' ! t) = map cnj (storage (tensors w ! t))) \<and>
   (\<forall>t. t \<notin> set mi \<longrightarrow> tensors w' ! t = tensors w ! t) \<and>
   stack w' = stack w \<and> redispatched w' = redispatched w"
proof (induction mi arbitrary: w)
  case Nil
  then show ?case by simp
next
  case (Cons t rest)
  let ?w = "w\<lparr>tensors := set_conj t True (conj_physical_inplace t (tensors w))\<rparr>"
  from Cons.prems(1) have t: "t < length (tensors w)"
    by (cases "t < length (tensors w)") simp_all
  with Cons.prems(1) have loop: "restore_loop rest ?w = (None, w')" by simp
  from Cons.prems(2) have d: "distinct rest" and n: "t \<notin> set rest" by simp_all
  from Cons.IH [OF loop d] have
    l: "length (tensors w') = length (tensors ?w)"
    and a: "\<And>u. u \<in> set rest \<Longrightarrow> u < length (tensors ?w) \<and> is_conj (tensors w' ! u) \<and>
       storage (tensors w' ! u) = map cnj (storage (tensors ?w ! u))"
    and b: "\<And>u. u \<notin> set rest \<Longrightarrow> tensors w' ! u = tensors ?w ! u"
    and s: "stack w' = stack ?w" "redispatched w' = redispatched ?w"
    by blast+
  have c3: "\<forall>u \<in> set (t # rest). u < length (tensors w) \<and> is_conj (tensors w' ! u) \<and>
       storage (tensors w' ! u) = map cnj (storage (tensors w ! u))"
  proof
    fix u assume "u \<in> set (t # rest)"
    then consider "u = t" | "u \<in> set rest" "u \<noteq> t" by auto
    then show "u < length (tensors w) \<and> is_conj (tensors w' ! u) \<and>
       storage (tensors w' ! u) = map cnj (storage (tensors w ! u))"
    proof cases
      case 1
      from b [OF n] have "tensors w' ! t = tensors ?w ! t" .
      with flip_same [OF t, of True] 1 t show ?thesis by simp
    next
      case 2
      from flip_other [OF 2(2), of True "tensors w"] a [OF 2(1)] show ?thesis by simp
    qed
  qed
  have c4: "\<forall>u. u \<notin> set (t # rest) \<longrightarrow> tensors w' ! u = tensors w ! u"
  proof (intro allI impI)
    fix u assume "u \<notin> set (t # rest)"
    then have "u \<notin> set rest" "u \<noteq> t" by simp_all
    from b [OF this(1)] flip_other [OF this(2), of True "tensors w"]
    show "tensors w' ! u = tensors w ! u" by simp
  qed
  from l s have c1: "length (tensors w') = length (tensors w)"
    and c5: "stack w' = stack w" and c6: "redispatched w' = redispatched w"
    by simp_all
  show ?case
    by (intro conjI) (rule c1 c3 c4 c5 c6)+
qed


text \<open>
  C9. Take a call the fallback returns from, and an argument of the schema that is
  mutable (it has alias information with the write flag) and whose stack slot holds a
  tensor with the conjugate bit set on entry. Then the second loop has conjugated the
  tensor's data and cleared its bit before the redispatch; and on return the bit is
  set again and the data is the conjugate of what the redispatched kernel left. In
  particular, when the kernel leaves the data as it got them, the data are the
  original ones.
\<close>

theorem conjugateFallback_round_trip:
  assumes ret: "conjugateFallback after_Conjugate oph dispatch_keys w = (None, w')"
    and i: "i < length (arguments (schema oph))"
    and ai: "alias_info (arguments (schema oph) ! i) = Some ai" "isWrite ai"
    and s: "stack w ! (length (stack w) - length (arguments (schema oph)) + i) = Tensor t"
    and t: "t < length (tensors w)" and c: "is_conj (tensors w ! t)"
  shows "\<exists>w1 mutable_inputs w2.
           materialize_loop (arguments (schema oph))
             (length (stack w) - length (arguments (schema oph))) (w, []) =
             (None, w1, mutable_inputs) \<and>
           redispatchBoxed oph (dispatch_keys AND after_Conjugate) w1 = (None, w2) \<and>
           t \<in> set mutable_inputs \<and>
           \<not> is_conj (tensors w1 ! t) \<and>
           storage (tensors w1 ! t) = map cnj (storage (tensors w ! t)) \<and>
           is_conj (tensors w' ! t) \<and>
           storage (tensors w' ! t) = map cnj (storage (tensors w2 ! t)) \<and>
           (storage (tensors w2 ! t) = storage (tensors w1 ! t) \<longrightarrow>
              storage (tensors w' ! t) = storage (tensors w ! t))"
proof -
  let ?args = "arguments (schema oph)"
  let ?start = "length (stack w) - length ?args"
  let ?ks = "dispatch_keys AND after_Conjugate"
  obtain r where r: "is_write_loop (schema_name (schema oph)) ?args None = Inr r"
  proof (cases "is_write_loop (schema_name (schema oph)) ?args None")
    case (Inl f)
    with ret show ?thesis by (simp add: conjugateFallback_def Let_def)
  next
    case (Inr r)
    then show ?thesis by (rule that)
  qed
  from i have "?args ! i \<in> set ?args" by simp
  with is_write_loop_None [OF r] ai have rT: "r = Some True" by blast
  have len: "\<not> length (stack w) < length ?args"
  proof
    assume "length (stack w) < length ?args"
    with ret r rT show False by (simp add: conjugateFallback_def Let_def)
  qed
  obtain f1 w1 mi where m: "materialize_loop ?args ?start (w, []) = (f1, w1, mi)"
    by (cases "materialize_loop ?args ?start (w, [])")
  have f1: "f1 = None"
  proof (cases f1)
    case None
    then show ?thesis .
  next
    case (Some f)
    with ret r rT len m show ?thesis by (simp add: conjugateFallback_def Let_def)
  qed
  obtain f2 w2 where d: "redispatchBoxed oph ?ks w1 = (f2, w2)"
    by (cases "redispatchBoxed oph ?ks w1")
  have f2: "f2 = None"
  proof (cases f2)
    case None
    then show ?thesis .
  next
    case (Some f)
    with ret r rT len m f1 d show ?thesis by (simp add: conjugateFallback_def Let_def)
  qed
  from ret r rT len m f1 d f2 have rest: "restore_loop mi w2 = (None, w')"
    by (simp add: conjugateFallback_def Let_def)
  from materialize_loop_None [OF m [unfolded f1]] obtain new where
    new: "mi = [] @ new" and p: "prepared (tensors w) new (tensors w1)"
    and e: "\<And>j u. j < length ?args \<Longrightarrow> stack w ! (?start + j) = Tensor u \<Longrightarrow>
              alias_info (?args ! j) \<noteq> None \<Longrightarrow> u < length (tensors w) \<Longrightarrow>
              is_conj (tensors w ! u) \<Longrightarrow> u \<in> set new"
    by blast
  from ai have "alias_info (?args ! i) \<noteq> None" by simp
  from e [OF i s this t c] new have tm: "t \<in> set mi" by simp
  from p new have dist: "distinct mi"
    and before: "\<not> is_conj (tensors w1 ! t)"
      "storage (tensors w1 ! t) = map cnj (storage (tensors w ! t))"
    using tm unfolding prepared_def by simp_all
  from restore_loop_None [OF rest dist] tm
  have after: "is_conj (tensors w' ! t)"
    "storage (tensors w' ! t) = map cnj (storage (tensors w2 ! t))"
    by blast+
  have restored: "storage (tensors w' ! t) = storage (tensors w ! t)"
    if "storage (tensors w2 ! t) = storage (tensors w1 ! t)"
    using that after(2) before(2) by (simp add: comp_def)
  from m f1 d f2 tm before after restored show ?thesis by blast
qed

lemma example_fallback:
  "conjugateFallback 0xFF example_op 0xFFFF example_world = (None, example_world_after)"
  by (simp add: conjugateFallback_def example_op_def example_world_def
      example_world_after_def materialize_body_def redispatchBoxed_def resolve_conj_def
      set_conj_def conj_physical_inplace_def Let_def complex_eq_iff)

theorem conjugateFallback_round_trip_witness:
  "conjugateFallback 0xFF example_op 0xFFFF example_world = (None, example_world_after) \<and>
   alias_info (arguments (schema example_op) ! 0) = Some \<lparr>isWrite = True\<rparr> \<and>
   stack example_world ! 0 = Tensor 0 \<and>
   is_conj (tensors example_world ! 0) \<and>
   storage (tensors example_world ! 0) = [Complex 1 2] \<and>
   is_conj (tensors example_world_after ! 0) \<and>
   storage (tensors example_world_after ! 0) = [Complex 1 2]"
proof -
  have i: "0 < length (arguments (schema example_op))"
    and ai: "alias_info (arguments (schema example_op) ! 0) = Some \<lparr>isWrite = True\<rparr>"
      "isWrite \<lparr>isWrite = True\<rparr>"
    by (simp_all add: example_op_def)
  have s: "stack example_world !
      (length (stack example_world) - length (arguments (schema example_op)) + 0) = Tensor 0"
    by (simp add: example_op_def example_world_def)
  have t: "0 < length (tensors example_world)" and c: "is_conj (tensors example_world ! 0)"
    and d: "storage (tensors example_world ! 0) = [Complex 1 2]"
    by (simp_all add: example_world_def)
  from conjugateFallback_round_trip [OF example_fallback i ai s t c]
  have r: "is_conj (tensors example_world_after ! 0)" by blast
  have s': "stack example_world ! 0 = Tensor 0"
    by (simp add: example_world_def)
  have e: "storage (tensors example_world_after ! 0) = [Complex 1 2]"
    by (simp add: example_world_after_def)
  from example_fallback ai(1) s' c d r e show ?thesis by simp
qed

subsection \<open>The debug-only assertion\<close>

text \<open>
  After the first loop has passed and the view branch was not taken, every aliasing
  argument is a write, and the assertion inside the second loop never fails: a
  failure of that loop is a bad index or handle. So builds with and without the
  debug-only assertion behave alike.
\<close>

lemma materialize_body_no_assert:
  assumes "\<forall>x. alias_info a = Some x \<longrightarrow> isWrite x"
    and "materialize_body a k st = (Some f, st')"
  shows "f = OutOfBounds"
proof -
  obtain w mi where st: "st = (w, mi)" by (cases st)
  from assms(1) have chk: "\<not> (case alias_info a of None \<Rightarrow> False | Some ai \<Rightarrow> \<not> isWrite ai)"
    by (cases "alias_info a") simp_all
  show ?thesis
  proof (cases "k < length (stack w)")
    case False
    with assms(2) st show ?thesis by (simp add: materialize_body_def)
  next
    case True
    show ?thesis
    proof (cases "stack w ! k")
      case (Int n)
      with assms(2) st True show ?thesis by (simp add: materialize_body_def)
    next
      case NoneValue
      with assms(2) st True show ?thesis by (simp add: materialize_body_def)
    next
      case (Tensor t)
      show ?thesis
      proof (cases "t < length (tensors w)")
        case False
        with assms(2) st True Tensor chk show ?thesis
          by (simp add: materialize_body_def Let_def)
      next
        case t: True
        obtain t' ts where r: "resolve_conj t (tensors w) = (t', ts)"
          by (cases "resolve_conj t (tensors w)")
        with assms(2) st True Tensor chk t show ?thesis
          by (cases "is_conj (tensors w ! t)"; cases "alias_info a")
             (simp_all add: materialize_body_def Let_def)
      qed
    qed
  qed
qed

lemma materialize_loop_no_assert:
  "\<forall>a \<in> set args. \<forall>x. alias_info a = Some x \<longrightarrow> isWrite x \<Longrightarrow>
   materialize_loop args k st = (Some f, st') \<Longrightarrow> f = OutOfBounds"
proof (induction args arbitrary: k st)
  case Nil
  then show ?case by simp
next
  case (Cons a rest)
  from Cons.prems(1) have a: "\<forall>x. alias_info a = Some x \<longrightarrow> isWrite x"
    and rest: "\<forall>a \<in> set rest. \<forall>x. alias_info a = Some x \<longrightarrow> isWrite x"
    by simp_all
  obtain r sa where body: "materialize_body a k st = (r, sa)"
    by (cases "materialize_body a k st")
  show ?case
  proof (cases r)
    case None
    with Cons.prems(2) body have "materialize_loop rest (k + 1) sa = (Some f, st')" by simp
    with rest show ?thesis by (rule Cons.IH)
  next
    case (Some g)
    with Cons.prems(2) body have "g = f" "sa = st'" by simp_all
    with body Some have "materialize_body a k st = (Some f, st')" by simp
    with a show ?thesis by (rule materialize_body_no_assert)
  qed
qed

lemma conjugateFallback_no_assert:
  assumes "conjugateFallback after_Conjugate oph dispatch_keys w = (Some f, w')"
  shows "f \<noteq> InternalAssert ''argument.alias_info()->isWrite()'' \<or>
         (\<exists>w1. redispatchBoxed oph (dispatch_keys AND after_Conjugate) w1 = (Some f, w'))"
proof (cases "is_write_loop (schema_name (schema oph)) (arguments (schema oph)) None")
  case (Inl g)
  with assms is_write_loop_Inl [OF Inl] show ?thesis
    by (auto simp add: conjugateFallback_def Let_def)
next
  case (Inr r)
  let ?args = "arguments (schema oph)"
  let ?ks = "dispatch_keys AND after_Conjugate"
  show ?thesis
  proof (cases "r = Some False")
    case True
    with assms Inr show ?thesis by (auto simp add: conjugateFallback_def Let_def)
  next
    case False
    have writes: "\<forall>a \<in> set ?args. \<forall>x. alias_info a = Some x \<longrightarrow> isWrite x"
    proof (intro ballI allI impI)
      fix a x assume "a \<in> set ?args" "alias_info a = Some x"
      with is_write_loop_None [OF Inr] have "r = Some (isWrite x)" by blast
      with False show "isWrite x" by simp
    qed
    show ?thesis
    proof (cases "length (stack w) < length ?args")
      case True
      with assms Inr False show ?thesis by (simp add: conjugateFallback_def Let_def)
    next
      case len: False
      obtain f1 w1 mi where
        m: "materialize_loop ?args (length (stack w) - length ?args) (w, []) = (f1, w1, mi)"
        by (cases "materialize_loop ?args (length (stack w) - length ?args) (w, [])")
      show ?thesis
      proof (cases f1)
        case (Some g)
        with assms Inr False len m have "g = f" by (simp add: conjugateFallback_def Let_def)
        with m Some
        have "materialize_loop ?args (length (stack w) - length ?args) (w, []) =
            (Some f, (w1, mi))" by simp
        with writes have "f = OutOfBounds" by (rule materialize_loop_no_assert)
        then show ?thesis by simp
      next
        case None
        obtain f2 w2 where d: "redispatchBoxed oph ?ks w1 = (f2, w2)"
          by (cases "redispatchBoxed oph ?ks w1")
        show ?thesis
        proof (cases f2)
          case (Some g)
          with assms Inr False len m None d have "g = f" "w2 = w'"
            by (simp_all add: conjugateFallback_def Let_def)
          with d Some show ?thesis by blast
        next
          case f2: None
          with assms Inr False len m None d have r: "restore_loop mi w2 = (Some f, w')"
            by (simp add: conjugateFallback_def Let_def)
          have "restore_loop ms v = (Some g, v') \<Longrightarrow> g = OutOfBounds" for ms v g v'
            by (induction ms arbitrary: v) (simp_all split: if_splits)
          from this [OF r] show ?thesis by simp
        qed
      qed
    qed
  qed
qed

end
